theory Spec2Isabelle
  imports Main "HOL-Library.Word"
begin

unbundle bit_operations_syntax

section \<open>Values of the source language\<close>

text \<open>
  The client is TypeScript on Node. Its values are modelled as follows.
  \<^item> A \<open>number[]\<close> that collects protobuf bytes is an \<open>int list\<close>: the elements are
    JS numbers, and only \<open>Buffer.from\<close> reduces them to bytes (modulo 256).
  \<^item> A JS string that is only compared with ASCII literals, tested for emptiness,
    concatenated and turned into bytes by \<open>Buffer.from(str, 'utf8')\<close> is a \<open>string\<close>
    holding its UTF-8 bytes, one \<open>char\<close> per byte.
  \<^item> \<open>BigInt\<close> values are unbounded: \<open>int\<close>, with \<open>AND\<close> and \<open>drop_bit\<close> for
    \<open>&\<close> and \<open>>>\<close>.
  \<^item> The 32-bit operators \<open><<\<close> and \<open>|\<close> of JS numbers wrap with \<open>toInt32\<close>.
\<close>

definition utf8 :: "string \<Rightarrow> int list" where
  "utf8 str = map of_char str"

definition toInt32 :: "int \<Rightarrow> int" where
  "toInt32 x = (x + 2147483648) mod 4294967296 - 2147483648"

definition js_shl :: "int \<Rightarrow> nat \<Rightarrow> int" where
  "js_shl x n = toInt32 (toInt32 x * 2 ^ n)"

definition js_bitor :: "int \<Rightarrow> int \<Rightarrow> int" where
  "js_bitor a b = toInt32 a OR toInt32 b"

text \<open>\<open>Buffer.from(array)\<close>: every element is stored as an unsigned byte.\<close>

definition Buffer_from :: "int list \<Rightarrow> int list" where
  "Buffer_from request = map (\<lambda>x. x mod 256) request"

datatype WindsurfErrorCode =
  NOT_RUNNING | CSRF_MISSING | API_KEY_MISSING | CONNECTION_FAILED | AUTH_FAILED | STREAM_ERROR

text \<open>
  What the code can throw or hand to a rejection: a plain \<open>Error\<close> of the transport
  (its message), a \<open>WindsurfError\<close> (message and code), and the built-in
  \<open>RangeError\<close> and \<open>URIError\<close>.
\<close>

datatype js_error =
  Error string
  | WindsurfError string WindsurfErrorCode
  | RangeError
  | URIError
  | ModelNotFound string

section \<open>Protobuf encoding helpers\<close>

text \<open>
  \<open>encodeVarint\<close>: the loop \<open>while (v > 127n) { push(Number(v & 0x7fn) | 0x80); v >>= 7n }\<close>
  followed by \<open>push(Number(v))\<close>. A value that is not above 127 (also a negative one)
  is pushed as it is.
\<close>

function encodeVarint :: "int \<Rightarrow> int list" where
  "encodeVarint v =
     (if v > 127 then ((v AND 127) OR 128) # encodeVarint (drop_bit 7 v) else [v])"
  by pat_completeness auto
termination
  by (relation "measure nat") (auto simp: drop_bit_eq_div)

definition encodeString :: "int \<Rightarrow> string \<Rightarrow> int list" where
  "encodeString fieldNum str =
     (let strBytes = utf8 str
      in js_bitor (js_shl fieldNum 3) 2 # encodeVarint (int (length strBytes)) @ strBytes)"

definition encodeMessage :: "int \<Rightarrow> int list \<Rightarrow> int list" where
  "encodeMessage fieldNum data =
     js_bitor (js_shl fieldNum 3) 2 # encodeVarint (int (length data)) @ data"

definition encodeVarintField :: "int \<Rightarrow> int \<Rightarrow> int list" where
  "encodeVarintField fieldNum v = js_bitor (js_shl fieldNum 3) 0 # encodeVarint v"

section \<open>Request building\<close>

text \<open>
  \<open>encodeMetadata\<close> reads the clock (\<open>Date.now()\<close>) and draws a UUID
  (\<open>crypto.randomUUID()\<close>); both are arguments of the model.
\<close>

definition encodeMetadata :: "int \<Rightarrow> string \<Rightarrow> string \<Rightarrow> string \<Rightarrow> int list" where
  "encodeMetadata now uuid apiKey version =
     (let requestId = now; sessionId = uuid
      in encodeString 1 ''windsurf-next''
         @ encodeString 2 version
         @ encodeString 3 apiKey
         @ encodeString 4 ''en''
         @ encodeString 7 version
         @ encodeVarintField 9 requestId
         @ encodeString 10 sessionId
         @ encodeString 12 ''windsurf'')"

text \<open>A JS string is truthy when it is not empty: \<open>if (header)\<close>, \<open>if (footer)\<close>.\<close>

definition encodeFormattedChatMessage :: "int \<Rightarrow> string \<Rightarrow> string \<Rightarrow> string \<Rightarrow> int list" where
  "encodeFormattedChatMessage role_code content header footer =
     encodeVarintField 1 role_code
     @ (if header \<noteq> [] then encodeString 2 header else [])
     @ encodeString 3 content
     @ (if footer \<noteq> [] then encodeString 4 footer else [])"

text \<open>
  The enum \<open>ChatMessageSource\<close> is declared in \<open>types.ts\<close>, which is not among the
  sources: its four values are a parameter.
\<close>

record ChatMessageSource =
  USER :: int
  ASSISTANT :: int
  SYSTEM :: int
  TOOL :: int

definition roleToSource :: "ChatMessageSource \<Rightarrow> string \<Rightarrow> int" where
  "roleToSource src r =
     (if r = ''user'' then USER src
      else if r = ''assistant'' then ASSISTANT src
      else if r = ''system'' then SYSTEM src
      else if r = ''tool'' then TOOL src
      else USER src)"

record ChatMessage =
  role :: string
  content :: string

text \<open>
  The loop of \<open>buildChatRequest\<close> over the messages, on the pair of its two mutable
  variables \<open>systemPrompt\<close> and \<open>request\<close>: a system message overwrites
  \<open>systemPrompt\<close>, every other message is appended to \<open>request\<close> as a field 2.
\<close>

fun chat_loop ::
  "ChatMessageSource \<Rightarrow> ChatMessage list \<Rightarrow> string \<times> int list \<Rightarrow> string \<times> int list" where
  "chat_loop src [] st = st"
| "chat_loop src (msg # msgs) (systemPrompt, request) =
     (if role msg = ''system'' then chat_loop src msgs (content msg, request)
      else
        (let source = roleToSource src (role msg);
             formattedMsg = encodeFormattedChatMessage source (content msg) [] []
         in chat_loop src msgs (systemPrompt, request @ encodeMessage 2 formattedMsg)))"

text \<open>The array \<open>request\<close> of \<open>buildChatRequest\<close>, as it is when \<open>Buffer.from\<close> reads it.\<close>

definition chat_request ::
  "ChatMessageSource \<Rightarrow> int \<Rightarrow> string \<Rightarrow> string \<Rightarrow> string \<Rightarrow> int \<Rightarrow> ChatMessage list \<Rightarrow> int list" where
  "chat_request src now uuid apiKey version modelEnum messages =
     (let metadata = encodeMetadata now uuid apiKey version;
          request0 = encodeMessage 1 metadata;
          (systemPrompt, request1) = chat_loop src messages ([], request0);
          request2 = (if systemPrompt \<noteq> [] then request1 @ encodeString 3 systemPrompt
                      else request1)
      in request2 @ encodeVarintField 4 modelEnum)"

text \<open>
  The \<open>Buffer\<close> operations of the framing. \<open>writeUInt32BE\<close> raises a \<open>RangeError\<close>
  for a value outside \<open>0 .. 2^32 - 1\<close> or an offset that leaves no room for four
  bytes; \<open>copy\<close> writes as much of the source as fits from \<open>targetStart\<close> on.
\<close>

definition writeUInt32BE :: "int list \<Rightarrow> int \<Rightarrow> nat \<Rightarrow> js_error + int list" where
  "writeUInt32BE buf v offset =
     (if v < 0 \<or> v > 4294967295 \<or> length buf < offset + 4 then Inl RangeError
      else Inr (buf[offset := v div 16777216 mod 256,
                    offset + 1 := v div 65536 mod 256,
                    offset + 2 := v div 256 mod 256,
                    offset + 3 := v mod 256]))"

definition Buffer_copy :: "int list \<Rightarrow> int list \<Rightarrow> nat \<Rightarrow> int list" where
  "Buffer_copy source target targetStart =
     take targetStart target
     @ take (length target - targetStart) source
     @ drop (targetStart + length source) target"

definition payload_of ::
  "ChatMessageSource \<Rightarrow> int \<Rightarrow> string \<Rightarrow> string \<Rightarrow> string \<Rightarrow> int \<Rightarrow> ChatMessage list \<Rightarrow> int list" where
  "payload_of src now uuid apiKey version modelEnum messages =
     Buffer_from (chat_request src now uuid apiKey version modelEnum messages)"

definition buildChatRequest ::
  "ChatMessageSource \<Rightarrow> int \<Rightarrow> string \<Rightarrow> string \<Rightarrow> string \<Rightarrow> int \<Rightarrow> ChatMessage list
    \<Rightarrow> js_error + int list" where
  "buildChatRequest src now uuid apiKey version modelEnum messages =
     (let payload = payload_of src now uuid apiKey version modelEnum messages;
          frame0 = replicate (5 + length payload) 0;
          frame1 = frame0[0 := 0]
      in case writeUInt32BE frame1 (int (length payload)) 1 of
           Inl e \<Rightarrow> Inl e
         | Inr frame2 \<Rightarrow> Inr (Buffer_copy payload frame2 5))"

section \<open>Reference decoders\<close>

text \<open>
  The readers the properties are stated with. They follow the wire format's standard
  interpretation, not the client (which has no decoder of its own requests).
  \<open>varint_decode\<close> reads little-endian 7-bit groups up to the first byte without the
  continuation bit and returns the value and the bytes after it; \<open>uint32be\<close> reads
  four bytes as a big-endian number.
\<close>

fun varint_decode :: "int list \<Rightarrow> (int \<times> int list) option" where
  "varint_decode [] = None"
| "varint_decode (b # bs) =
     (if b < 128 then Some (b, bs)
      else (case varint_decode bs of
              None \<Rightarrow> None
            | Some (v, rest) \<Rightarrow> Some (b mod 128 + 128 * v, rest)))"

definition uint32be :: "int list \<Rightarrow> int" where
  "uint32be bs = ((bs ! 0 * 256 + bs ! 1) * 256 + bs ! 2) * 256 + bs ! 3"

text \<open>
  \<open>decodeFields\<close> reads a message as the sequence of its top-level fields: a tag
  (field number times 8 plus wire type), then a varint (wire type 0) or a varint
  length and that many bytes (wire type 2).
\<close>

datatype wire_value = Varint int | LengthDelimited "int list"

function decodeFields :: "int list \<Rightarrow> (int \<times> wire_value) list option" where
  "decodeFields bs =
     (if bs = [] then Some []
      else (case varint_decode bs of
              None \<Rightarrow> None
            | Some (tag, r) \<Rightarrow>
                (if tag mod 8 = 0 then
                   (case varint_decode r of
                      None \<Rightarrow> None
                    | Some (v, r') \<Rightarrow>
                        map_option ((#) (tag div 8, Varint v)) (decodeFields r'))
                 else if tag mod 8 = 2 then
                   (case varint_decode r of
                      None \<Rightarrow> None
                    | Some (n, r') \<Rightarrow>
                        (if nat n \<le> length r' then
                           map_option ((#) (tag div 8, LengthDelimited (take (nat n) r')))
                             (decodeFields (drop (nat n) r'))
                         else None))
                 else None)))"
  by pat_completeness auto
termination
proof -
  have shorter: "length rest < length bs" if "varint_decode bs = Some (v, rest)"
    for bs :: "int list" and v rest
    using that by (induction bs arbitrary: v rest) (auto split: if_splits option.splits)
  show ?thesis
  proof (relation "measure length", goal_cases)
    case 1
    show ?case by simp
  next
    case (2 bs x2 tag r x2a v r')
    then show ?case using shorter[of bs tag r] shorter[of r v r'] by simp
  next
    case (3 bs x2 tag r x2a n r')
    then show ?case using shorter[of bs tag r] shorter[of r n r'] by simp
  qed
qed

text \<open>The values of the fields with a given number, in the order they appear.\<close>

definition fields_numbered :: "int \<Rightarrow> (int \<times> wire_value) list \<Rightarrow> wire_value list" where
  "fields_numbered k fs = map snd (filter (\<lambda>f. fst f = k) fs)"

section \<open>Response parsing\<close>

text \<open>
  \<open>extractTextFromChunk\<close> works on the string \<open>chunk.toString('utf8')\<close>. The model
  takes that string as its argument, as the list of its UTF-16 code units (for a chunk
  of ASCII bytes these are the bytes). The first \<open>replace\<close> maps every code unit
  outside \<open>\x20-\x7E\<close> and \<open>\n\<close> to a space, so everything after it is a \<open>string\<close>
  of printable ASCII and newlines.

  \<open>is_space\<close> is \<open>\s\<close> and the white space of \<open>trim\<close> on such strings, \<open>is_digit\<close>
  is \<open>\d\<close>.

  \<open>match_asterisk\<close> is group 1 of \<open>readable.match(/\*\s*([^0]+)/)\<close>: at the leftmost
  asterisk where the pattern matches, the greedy \<open>\s*\<close> takes the whole run of white
  space and the group the characters up to the next \<open>0\<close>; when none is left for the
  group, the matcher backtracks by one and the group is the last white space
  character; an asterisk followed at once by \<open>0\<close> or by the end matches nothing, and
  the search goes on behind it.

  \<open>split_spaces\<close> is \<open>readable.split(/\s{2,}/)\<close>, its first argument the part read
  so far. \<open>hex_token\<close> is \<open>part.match(/^[a-f0-9-]+$/i)\<close>. \<open>first_part\<close> is the loop
  over the parts.
\<close>

definition is_space :: "char \<Rightarrow> bool" where
  "is_space c = (c = CHR '' '' \<or> c = CHR 0x09 \<or> c = CHR 0x0A \<or> c = CHR 0x0B \<or> c = CHR 0x0C \<or> c = CHR 0x0D)"

definition is_digit :: "char \<Rightarrow> bool" where
  "is_digit c = (48 \<le> (of_char c :: nat) \<and> (of_char c :: nat) \<le> 57)"

definition printable :: "nat \<Rightarrow> char" where
  "printable u = (if (32 \<le> u \<and> u \<le> 126) \<or> u = 10 then char_of u else CHR '' '')"

definition js_trim :: "string \<Rightarrow> string" where
  "js_trim s = rev (dropWhile is_space (rev (dropWhile is_space s)))"

fun match_asterisk :: "string \<Rightarrow> string option" where
  "match_asterisk [] = None"
| "match_asterisk (c # cs) =
     (if c = CHR ''*'' then
        (let ws = takeWhile is_space cs;
             g = takeWhile (\<lambda>x. x \<noteq> CHR ''0'') (dropWhile is_space cs)
         in if g \<noteq> [] then Some g
            else if ws \<noteq> [] then Some [last ws]
            else match_asterisk cs)
      else match_asterisk cs)"

function split_spaces :: "string \<Rightarrow> string \<Rightarrow> string list" where
  "split_spaces cur [] = [cur]"
| "split_spaces cur [c] = [cur @ [c]]"
| "split_spaces cur (c # d # cs) =
     (if is_space c \<and> is_space d then cur # split_spaces [] (dropWhile is_space cs)
      else split_spaces (cur @ [c]) (d # cs))"
  by pat_completeness auto
termination
  by (relation "measure (\<lambda>(cur, s). length s)")
     (auto simp: length_dropWhile_le le_imp_less_Suc less_SucI)

definition hex_token :: "string \<Rightarrow> bool" where
  "hex_token part =
     (part \<noteq> [] \<and>
      list_all (\<lambda>c. is_digit c \<or> c = CHR ''-''
                    \<or> (97 \<le> (of_char c :: nat) \<and> (of_char c :: nat) \<le> 102)
                    \<or> (65 \<le> (of_char c :: nat) \<and> (of_char c :: nat) \<le> 70)) part)"

fun first_part :: "string list \<Rightarrow> string" where
  "first_part [] = []"
| "first_part (part # parts) =
     (if part \<noteq> [] \<and> CHR ''-'' \<notin> set part \<and> \<not> hex_token part then
        (let cleaned = js_trim (dropWhile (\<lambda>c. is_space c \<or> is_digit c \<or> c = CHR ''*'') part)
         in if cleaned \<noteq> [] then cleaned else first_part parts)
      else first_part parts)"

definition extractTextFromChunk :: "nat list \<Rightarrow> string" where
  "extractTextFromChunk decoded =
     (let readable = js_trim (map printable decoded)
      in case match_asterisk readable of
           Some g \<Rightarrow> js_trim g
         | None \<Rightarrow> first_part (split_spaces [] readable))"

text \<open>The code units of a string of ASCII characters.\<close>

definition ascii :: "string \<Rightarrow> nat list" where
  "ascii s = map of_char s"

text \<open>
  \<open>decodeURIComponent\<close>, the built-in the trailer handlers call, on strings held as
  UTF-8 bytes: \<open>%XX\<close> becomes the byte \<open>XX\<close>; a \<open>%\<close> without two hexadecimal
  digits, or escaped bytes above 127 that are not the UTF-8 encoding of a code point
  (each byte of it escaped), raise \<open>URIError\<close>.
\<close>

definition hex_digit :: "char \<Rightarrow> nat option" where
  "hex_digit c =
     (let n = of_char c
      in if 48 \<le> n \<and> n \<le> 57 then Some (n - 48)
         else if 65 \<le> n \<and> n \<le> 70 then Some (n - 55)
         else if 97 \<le> n \<and> n \<le> 102 then Some (n - 87)
         else None)"

datatype uri_token = Lit char | Esc nat

fun uri_tokens :: "string \<Rightarrow> uri_token list option" where
  "uri_tokens [] = Some []"
| "uri_tokens (c # cs) =
     (if c = CHR ''%'' then
        (case cs of
           h1 # h2 # rest \<Rightarrow>
             (case (hex_digit h1, hex_digit h2) of
                (Some a, Some b) \<Rightarrow> map_option ((#) (Esc (16 * a + b))) (uri_tokens rest)
              | _ \<Rightarrow> None)
         | _ \<Rightarrow> None)
      else map_option ((#) (Lit c)) (uri_tokens cs))"

definition cont :: "nat \<Rightarrow> bool" where
  "cont b = (128 \<le> b \<and> b \<le> 191)"

definition second3 :: "nat \<Rightarrow> nat \<Rightarrow> bool" where
  "second3 b b1 =
     (if b = 224 then 160 \<le> b1 \<and> b1 \<le> 191
      else if b = 237 then 128 \<le> b1 \<and> b1 \<le> 159
      else cont b1)"

definition second4 :: "nat \<Rightarrow> nat \<Rightarrow> bool" where
  "second4 b b1 =
     (if b = 240 then 144 \<le> b1 \<and> b1 \<le> 191
      else if b = 244 then 128 \<le> b1 \<and> b1 \<le> 143
      else cont b1)"

fun uri_octets :: "uri_token list \<Rightarrow> string option" where
  "uri_octets [] = Some []"
| "uri_octets (Lit c # ts) = map_option ((#) c) (uri_octets ts)"
| "uri_octets (Esc b # ts) =
     (if b < 128 then map_option ((#) (char_of b)) (uri_octets ts)
      else if 194 \<le> b \<and> b \<le> 223 then
        (case ts of
           Esc b1 # ts1 \<Rightarrow>
             (if cont b1 then map_option ((@) (map char_of [b, b1])) (uri_octets ts1)
              else None)
         | _ \<Rightarrow> None)
      else if 224 \<le> b \<and> b \<le> 239 then
        (case ts of
           Esc b1 # Esc b2 # ts2 \<Rightarrow>
             (if second3 b b1 \<and> cont b2
              then map_option ((@) (map char_of [b, b1, b2])) (uri_octets ts2)
              else None)
         | _ \<Rightarrow> None)
      else if 240 \<le> b \<and> b \<le> 244 then
        (case ts of
           Esc b1 # Esc b2 # Esc b3 # ts3 \<Rightarrow>
             (if second4 b b1 \<and> cont b2 \<and> cont b3
              then map_option ((@) (map char_of [b, b1, b2, b3])) (uri_octets ts3)
              else None)
         | _ \<Rightarrow> None)
      else None)"

definition decodeURIComponent :: "string \<Rightarrow> js_error + string" where
  "decodeURIComponent s =
     (case uri_tokens s of
        None \<Rightarrow> Inl URIError
      | Some ts \<Rightarrow> (case uri_octets ts of None \<Rightarrow> Inl URIError | Some r \<Rightarrow> Inr r))"

section \<open>Streaming API\<close>

record WindsurfCredentials =
  csrfToken :: string
  port :: nat
  apiKey :: string
  version :: string

text \<open>
  The options of a call. The three optional callbacks are not fields: the model logs
  the calls the code makes to them (\<open>onChunk_calls\<close>, \<open>onComplete_calls\<close>,
  \<open>onError_calls\<close> below).
\<close>

record StreamChatOptions =
  model :: string
  messages :: "ChatMessage list"

text \<open>
  Modelled from the spec: \<open>modelNameToEnum\<close> of \<open>models.ts\<close>, which is not among the
  sources. The spec: the model name is resolved to an integer code via a fixed
  lookup; an unresolved name fails with \<open>ModelNotFound\<close>. The table is a parameter.
\<close>

definition modelNameToEnum :: "(string \<rightharpoonup> int) \<Rightarrow> string \<Rightarrow> js_error + int" where
  "modelNameToEnum table name =
     (case table name of None \<Rightarrow> Inl (ModelNotFound name) | Some code \<Rightarrow> Inr code)"

text \<open>
  What the transport and the timer deliver to the listeners of a call, one event per
  listener invocation: \<open>'error'\<close> and \<open>'connect'\<close> of the session; \<open>'data'\<close> (with the
  chunk's string, see \<open>extractTextFromChunk\<close>), \<open>'trailers'\<close> (the headers
  \<open>grpc-status\<close> and \<open>grpc-message\<close>, each possibly absent), \<open>'end'\<close> and \<open>'error'\<close>
  of the request stream; and the expiry of the timer that \<open>streamChat\<close> sets.
\<close>

datatype event =
  ClientError string
  | Connect
  | Data "nat list"
  | Trailers "string option" "string option"
  | End
  | RequestError string
  | Timeout

text \<open>
  The error of a trailer whose status is not \<open>'0'\<close>: the template string
  \<open>`gRPC error ${status}: ${message ? decodeURIComponent(message) : 'Unknown error'}`\<close>.
  An absent header prints as \<open>undefined\<close>; an absent or empty message is falsy.
\<close>

definition status_text :: "string option \<Rightarrow> string" where
  "status_text status = (case status of None \<Rightarrow> ''undefined'' | Some s \<Rightarrow> s)"

definition message_text :: "string option \<Rightarrow> js_error + string" where
  "message_text message =
     (case message of
        None \<Rightarrow> Inr ''Unknown error''
      | Some m \<Rightarrow> if m = [] then Inr ''Unknown error'' else decodeURIComponent m)"

definition grpc_error :: "string option \<Rightarrow> string option \<Rightarrow> js_error + js_error" where
  "grpc_error status message =
     (case message_text message of
        Inl e \<Rightarrow> Inl e
      | Inr m \<Rightarrow>
          Inr (WindsurfError (''gRPC error '' @ status_text status @ '': '' @ m) STREAM_ERROR))"

subsection \<open>Push mode: \<open>streamChat\<close>\<close>

text \<open>
  The state of one call: whether the request exists (its listeners are installed by
  the \<open>'connect'\<close> listener), how many requests were written, how often
  \<open>client.close()\<close> was called, the array \<open>chunks\<close>, the calls made to the three
  callbacks, how the promise was settled (\<open>resolve\<close> and \<open>reject\<close> act on a
  pending promise only), and the exceptions that listeners have thrown.
\<close>

datatype outcome = Resolved string | Rejected js_error

record push_state =
  requested :: bool
  requests :: nat
  closes :: nat
  chunks :: "string list"
  onChunk_calls :: "string list"
  onComplete_calls :: "string list"
  onError_calls :: "js_error list"
  settled :: "outcome option"
  uncaught :: "js_error list"

definition settle :: "outcome \<Rightarrow> push_state \<Rightarrow> push_state" where
  "settle out s = (if settled s = None then s\<lparr>settled := Some out\<rparr> else s)"

text \<open>
  One listener invocation; \<open>Inl\<close> is an exception the listener throws, before it has
  changed anything. An event of the request stream before the request exists has no
  listener. \<open>client.request\<close> throws on a session that \<open>client.close()\<close> has closed, so
  a \<open>'connect'\<close> that comes after the timer makes no request. The trailer listener
  throws the \<open>URIError\<close> of \<open>decodeURIComponent\<close>. \<open>Timeout\<close> is the expiry of
  \<open>setTimeout(..., 120000)\<close>, which nothing clears.
\<close>

fun streamChat_on :: "event \<Rightarrow> push_state \<Rightarrow> js_error + push_state" where
  "streamChat_on (ClientError m) s =
     Inr (settle (Rejected (WindsurfError (''Connection failed: '' @ m) CONNECTION_FAILED))
            (s\<lparr>onError_calls := onError_calls s @ [Error m]\<rparr>))"
| "streamChat_on Connect s =
     (if closes s > 0 then Inl (Error ''New streams cannot be created after receiving a GOAWAY'')
      else Inr (s\<lparr>requested := True, requests := requests s + 1\<rparr>))"
| "streamChat_on (Data chunk) s =
     (if \<not> requested s then Inr s
      else
        (let text = extractTextFromChunk chunk
         in if text \<noteq> [] then
              Inr (s\<lparr>chunks := chunks s @ [text], onChunk_calls := onChunk_calls s @ [text]\<rparr>)
            else Inr s))"
| "streamChat_on (Trailers status message) s =
     (if \<not> requested s then Inr s
      else if status \<noteq> Some ''0'' then
        (case grpc_error status message of
           Inl e \<Rightarrow> Inl e
         | Inr err \<Rightarrow>
             Inr (settle (Rejected err) (s\<lparr>onError_calls := onError_calls s @ [err]\<rparr>)))
      else Inr s)"
| "streamChat_on End s =
     (if \<not> requested s then Inr s
      else
        (let fullText = concat (chunks s)
         in Inr (settle (Resolved fullText)
                   (s\<lparr>closes := closes s + 1,
                      onComplete_calls := onComplete_calls s @ [fullText]\<rparr>))))"
| "streamChat_on (RequestError m) s =
     (if \<not> requested s then Inr s
      else
        Inr (settle (Rejected (WindsurfError (''Request failed: '' @ m) STREAM_ERROR))
               (s\<lparr>closes := closes s + 1, onError_calls := onError_calls s @ [Error m]\<rparr>)))"
| "streamChat_on Timeout s =
     (let fullText = concat (chunks s)
      in Inr (settle (Resolved fullText)
                (s\<lparr>closes := closes s + 1,
                   onComplete_calls := onComplete_calls s @ [fullText]\<rparr>)))"

text \<open>
  A run of listener invocations. The code catches no exception of a listener: it
  reaches the host as an uncaught exception, which the run records; the listener has
  changed nothing, and the later events find the state as it was.
\<close>

fun streamChat_events :: "event list \<Rightarrow> push_state \<Rightarrow> push_state" where
  "streamChat_events [] s = s"
| "streamChat_events (e # es) s =
     (case streamChat_on e s of
        Inl err \<Rightarrow> streamChat_events es (s\<lparr>uncaught := uncaught s @ [err]\<rparr>)
      | Inr s' \<Rightarrow> streamChat_events es s')"

definition streamChat_init :: push_state where
  "streamChat_init =
     \<lparr>requested = False, requests = 0, closes = 0, chunks = [], onChunk_calls = [],
      onComplete_calls = [], onError_calls = [], settled = None, uncaught = []\<rparr>"

text \<open>
  The synchronous part of \<open>streamChat\<close>: the model code, then the frame, then
  \<open>http2.connect\<close>. The result is what is thrown, or the frame to write and the
  state the listeners start from; the second component counts the calls of
  \<open>http2.connect\<close>.
\<close>

definition streamChat ::
  "(string \<rightharpoonup> int) \<Rightarrow> ChatMessageSource \<Rightarrow> int \<Rightarrow> string \<Rightarrow> WindsurfCredentials
    \<Rightarrow> StreamChatOptions \<Rightarrow> (js_error + int list \<times> push_state) \<times> nat" where
  "streamChat table src now uuid credentials options =
     (case modelNameToEnum table (model options) of
        Inl e \<Rightarrow> (Inl e, 0)
      | Inr modelEnum \<Rightarrow>
          (case buildChatRequest src now uuid (apiKey credentials) (version credentials)
                  modelEnum (messages options) of
             Inl e \<Rightarrow> (Inl e, 0)
           | Inr frame \<Rightarrow> (Inr (frame, streamChat_init), 1)))"

subsection \<open>Pull mode: \<open>streamChatGenerator\<close>\<close>

text \<open>
  The variables the listeners and the loop of the generator share: \<open>chunkQueue\<close>,
  \<open>done\<close> and \<open>error\<close>; the number of calls of \<open>client.close()\<close>; the exceptions
  that listeners have thrown; and whether the generator has finished. The generator
  calls no \<open>setTimeout\<close>, and its session has no \<open>'connect'\<close> listener: the request
  is made at once.
\<close>

record gen_state =
  g_closes :: nat
  chunkQueue :: "string list"
  g_done :: bool
  g_error :: "js_error option"
  g_uncaught :: "js_error list"
  g_finished :: bool

fun streamChatGenerator_on :: "event \<Rightarrow> gen_state \<Rightarrow> js_error + gen_state" where
  "streamChatGenerator_on (ClientError m) g =
     Inr (g\<lparr>g_error := Some (WindsurfError (''Connection failed: '' @ m) CONNECTION_FAILED),
            g_done := True\<rparr>)"
| "streamChatGenerator_on Connect g = Inr g"
| "streamChatGenerator_on (Data chunk) g =
     (let text = extractTextFromChunk chunk
      in if text \<noteq> [] then Inr (g\<lparr>chunkQueue := chunkQueue g @ [text]\<rparr>) else Inr g)"
| "streamChatGenerator_on (Trailers status message) g =
     (if status \<noteq> Some ''0'' then
        (case grpc_error status message of
           Inl e \<Rightarrow> Inl e
         | Inr err \<Rightarrow> Inr (g\<lparr>g_error := Some err\<rparr>))
      else Inr g)"
| "streamChatGenerator_on End g = Inr (g\<lparr>g_done := True, g_closes := g_closes g + 1\<rparr>)"
| "streamChatGenerator_on (RequestError m) g =
     Inr (g\<lparr>g_error := Some (WindsurfError (''Request failed: '' @ m) STREAM_ERROR),
            g_done := True, g_closes := g_closes g + 1\<rparr>)"
| "streamChatGenerator_on Timeout g = Inr g"

text \<open>
  One turn of the loop \<open>while (!done || chunkQueue.length > 0)\<close> and what follows it:
  a queued fragment is yielded; with an empty queue the loop awaits the next event
  while the stream is open (\<open>Suspended\<close>: the next \<open>gen_next\<close> is its resumption); once
  \<open>done\<close> is set the loop is left, and the generator throws \<open>error\<close> when it is set and
  returns otherwise. Either way it has finished, and every later \<open>next()\<close> only
  reports that (\<open>Finished\<close>).
\<close>

datatype gen_result = Yield string | Suspended | Returned | Threw js_error | Finished

definition gen_next :: "gen_state \<Rightarrow> gen_result \<times> gen_state" where
  "gen_next g =
     (if g_finished g then (Finished, g)
      else
        (case chunkQueue g of
           x # xs \<Rightarrow> (Yield x, g\<lparr>chunkQueue := xs\<rparr>)
         | [] \<Rightarrow>
             if \<not> g_done g then (Suspended, g)
             else (case g_error g of
                     Some e \<Rightarrow> (Threw e, g\<lparr>g_finished := True\<rparr>)
                   | None \<Rightarrow> (Returned, g\<lparr>g_finished := True\<rparr>))))"

text \<open>
  A run of the generator: listener invocations and turns of the consumer's loop, in
  any interleaving. It gives the results of the turns and the last state. As in push
  mode, an exception of a listener is recorded and changes nothing else.
\<close>

datatype action = Ev event | Next

fun gen_run :: "action list \<Rightarrow> gen_state \<Rightarrow> gen_result list \<times> gen_state" where
  "gen_run [] g = ([], g)"
| "gen_run (Ev e # as) g =
     (case streamChatGenerator_on e g of
        Inl err \<Rightarrow> gen_run as (g\<lparr>g_uncaught := g_uncaught g @ [err]\<rparr>)
      | Inr g' \<Rightarrow> gen_run as g')"
| "gen_run (Next # as) g =
     (case gen_next g of
        (r, g') \<Rightarrow> (case gen_run as g' of (rs, g'') \<Rightarrow> (r # rs, g'')))"

definition streamChatGenerator_init :: gen_state where
  "streamChatGenerator_init =
     \<lparr>g_closes = 0, chunkQueue = [], g_done = False, g_error = None, g_uncaught = [],
      g_finished = False\<rparr>"

text \<open>The start of the generator's body, as for \<open>streamChat\<close>.\<close>

definition streamChatGenerator ::
  "(string \<rightharpoonup> int) \<Rightarrow> ChatMessageSource \<Rightarrow> int \<Rightarrow> string \<Rightarrow> WindsurfCredentials
    \<Rightarrow> StreamChatOptions \<Rightarrow> (js_error + int list \<times> gen_state) \<times> nat" where
  "streamChatGenerator table src now uuid credentials options =
     (case modelNameToEnum table (model options) of
        Inl e \<Rightarrow> (Inl e, 0)
      | Inr modelEnum \<Rightarrow>
          (case buildChatRequest src now uuid (apiKey credentials) (version credentials)
                  modelEnum (messages options) of
             Inl e \<Rightarrow> (Inl e, 0)
           | Inr frame \<Rightarrow> (Inr (frame, streamChatGenerator_init), 1)))"

subsection \<open>What a run delivers\<close>

text \<open>
  The events of a run; the fragments among its results; and the texts the chunks of
  a list of events decode to, the empty ones left out. \<open>stored_error\<close> is the error
  an event stands for: a connection failure, a request error, or a trailer whose
  status is not \<open>'0'\<close> and whose message, if any, decodes.
\<close>

fun events_of :: "action list \<Rightarrow> event list" where
  "events_of [] = []"
| "events_of (Ev e # as) = e # events_of as"
| "events_of (Next # as) = events_of as"

fun yields :: "gen_result list \<Rightarrow> string list" where
  "yields [] = []"
| "yields (Yield x # rs) = x # yields rs"
| "yields (r # rs) = yields rs"

fun texts :: "event list \<Rightarrow> string list" where
  "texts [] = []"
| "texts (Data c # es) =
     (if extractTextFromChunk c \<noteq> [] then extractTextFromChunk c # texts es else texts es)"
| "texts (e # es) = texts es"

fun stored_error :: "event \<Rightarrow> js_error option" where
  "stored_error (ClientError m) =
     Some (WindsurfError (''Connection failed: '' @ m) CONNECTION_FAILED)"
| "stored_error (RequestError m) =
     Some (WindsurfError (''Request failed: '' @ m) STREAM_ERROR)"
| "stored_error (Trailers status message) =
     (if status = Some ''0'' then None
      else (case message of
              None \<Rightarrow> Some (WindsurfError (''gRPC error ''
                        @ (case status of None \<Rightarrow> ''undefined'' | Some st \<Rightarrow> st)
                        @ '': Unknown error'') STREAM_ERROR)
            | Some msg \<Rightarrow>
                if msg = [] then Some (WindsurfError (''gRPC error ''
                        @ (case status of None \<Rightarrow> ''undefined'' | Some st \<Rightarrow> st)
                        @ '': Unknown error'') STREAM_ERROR)
                else (case decodeURIComponent msg of
                        Inl e \<Rightarrow> None
                      | Inr d \<Rightarrow> Some (WindsurfError (''gRPC error ''
                          @ (case status of None \<Rightarrow> ''undefined'' | Some st \<Rightarrow> st)
                          @ '': '' @ d) STREAM_ERROR))))"
| "stored_error e = None"

text \<open>The last error the events of a list stand for, after the one held before.\<close>

fun last_error :: "js_error option \<Rightarrow> event list \<Rightarrow> js_error option" where
  "last_error held [] = held"
| "last_error held (e # es) =
     last_error (case stored_error e of None \<Rightarrow> held | Some err \<Rightarrow> Some err) es"

text \<open>
  The events of a stream that stalls: it connects and delivers chunks, at most a
  trailer with status \<open>'0'\<close>, and neither ends nor fails.
\<close>

fun stalls :: "event \<Rightarrow> bool" where
  "stalls Connect = True"
| "stalls (Data chunk) = True"
| "stalls (Trailers status message) = (status = Some ''0'')"
| "stalls e = False"

declare decodeFields.simps [simp del]
declare encodeVarint.simps [simp del]

section \<open>Properties of the wire encoder\<close>

lemma and_127_mod: "(v::int) AND 127 = v mod 128"
  using take_bit_eq_mask[of 7 v] by (simp add: take_bit_eq_mod mask_eq_exp_minus_1)

lemma or_128_add: "(v mod 128) OR 128 = v mod 128 + (128::int)"
proof -
  have "\<not> bit (take_bit 7 v) (7::nat)"
    by (simp add: bit_take_bit_iff)
  then have "take_bit 7 v AND 2 ^ 7 = 0"
    using and_exp_eq_0_iff_not_bit[of "take_bit 7 v" 7] by blast
  then have "take_bit 7 v + 2 ^ 7 = take_bit 7 v OR 2 ^ 7"
    by (rule disjunctive_add_eq_or)
  then show ?thesis by (simp add: take_bit_eq_mod)
qed

lemma varint_group: "(v AND 127) OR 128 = v mod 128 + (128::int)"
  by (simp add: and_127_mod or_128_add)

lemma encodeVarint_small: "\<not> v > 127 \<Longrightarrow> encodeVarint v = [v]"
  by (subst encodeVarint.simps) simp

lemma encodeVarint_large:
  "v > 127 \<Longrightarrow> encodeVarint v = (v mod 128 + 128) # encodeVarint (v div 128)"
  by (subst encodeVarint.simps) (simp add: varint_group drop_bit_eq_div)

lemma varint_roundtrip:
  "0 \<le> v \<Longrightarrow> varint_decode (encodeVarint v @ rest) = Some (v, rest)"
proof (induction v rule: encodeVarint.induct)
  case (1 v)
  show ?case
  proof (cases "v > 127")
    case True
    have "0 \<le> drop_bit 7 v" using "1.prems" by simp
    with "1.IH" True
    have ih: "varint_decode (encodeVarint (v div 128) @ rest) = Some (v div 128, rest)"
      by (simp add: drop_bit_eq_div)
    have e: "encodeVarint v = (v mod 128 + 128) # encodeVarint (v div 128)"
      using True by (rule encodeVarint_large)
    have "\<not> v mod 128 + 128 < 128"
      by simp
    moreover have "(v mod 128 + 128) mod 128 + 128 * (v div 128) = v"
      by simp
    ultimately show ?thesis unfolding e using ih by simp
  next
    case False
    then have "encodeVarint v = [v]" by (rule encodeVarint_small)
    then show ?thesis using False by simp
  qed
qed

text \<open>
  C5. For each of 0, 1, 127, 128, 2^32 - 1 and 2^53 - 1, reading the bytes of
  \<open>encodeVarint\<close> as a base-128 varint (little-endian 7-bit groups, continuation bit
  on all but the last byte) gives the number back, with no byte left over.
\<close>

theorem encodeVarint_roundtrip_samples:
  "varint_decode (encodeVarint 0) = Some (0, [])
   \<and> varint_decode (encodeVarint 1) = Some (1, [])
   \<and> varint_decode (encodeVarint 127) = Some (127, [])
   \<and> varint_decode (encodeVarint 128) = Some (128, [])
   \<and> varint_decode (encodeVarint (2 ^ 32 - 1)) = Some (2 ^ 32 - 1, [])
   \<and> varint_decode (encodeVarint (2 ^ 53 - 1)) = Some (2 ^ 53 - 1, [])"
  using varint_roundtrip[of 0 "[]"] varint_roundtrip[of 1 "[]"] varint_roundtrip[of 127 "[]"]
    varint_roundtrip[of 128 "[]"] varint_roundtrip[of "2 ^ 32 - 1" "[]"]
    varint_roundtrip[of "2 ^ 53 - 1" "[]"]
  by simp

text \<open>
  C7. In the field \<open>encodeString\<close> builds for any field number and string, and in the
  field \<open>encodeMessage\<close> builds for any field number and nested message, the element
  after the tag starts a varint that decodes to the number of payload bytes, and what
  follows that varint is exactly the payload.
\<close>

theorem length_delimited_declares_payload_length:
  "varint_decode (tl (encodeString fieldNum str))
     = Some (int (length (utf8 str)), utf8 str)
   \<and> varint_decode (tl (encodeMessage fieldNum data)) = Some (int (length data), data)"
  using varint_roundtrip[of "int (length (utf8 str))" "utf8 str"]
    varint_roundtrip[of "int (length data)" data]
  by (simp add: encodeString_def encodeMessage_def Let_def)

section \<open>Properties of the frame\<close>

lemma uint32be_bytes:
  assumes "0 \<le> n" "n < 4294967296"
  shows "uint32be [n div 16777216 mod 256, n div 65536 mod 256, n div 256 mod 256, n mod 256]
         = (n::int)"
proof -
  define q1 where "q1 = n div 256"
  define q2 where "q2 = q1 div 256"
  define q3 where "q3 = q2 div 256"
  have a: "n div 65536 = q2"
    using zdiv_zmult2_eq[of 256 n 256] by (simp add: q1_def q2_def)
  have b: "n div 16777216 = q3"
    using zdiv_zmult2_eq[of 256 "n div 256" 256] zdiv_zmult2_eq[of 65536 n 256]
    by (simp add: q1_def q2_def q3_def)
  have c: "q3 mod 256 = q3"
    using assms b by simp
  have "n = q1 * 256 + n mod 256" by (simp add: q1_def)
  moreover have "q1 = q2 * 256 + q1 mod 256" by (simp add: q2_def)
  moreover have "q2 = q3 * 256 + q2 mod 256" by (simp add: q3_def)
  ultimately have "n = ((q3 * 256 + q2 mod 256) * 256 + q1 mod 256) * 256 + n mod 256"
    by simp
  then show ?thesis
    by (simp add: uint32be_def a b c flip: q1_def)
qed

lemma frame_layout:
  assumes "int (length payload) < 4294967296"
  shows "(case writeUInt32BE ((replicate (5 + length payload) 0)[0 := 0])
                 (int (length payload)) 1 of
            Inl e \<Rightarrow> Inl e
          | Inr frame2 \<Rightarrow> Inr (Buffer_copy payload frame2 5))
         = Inr (0 # [int (length payload) div 16777216 mod 256,
                     int (length payload) div 65536 mod 256,
                     int (length payload) div 256 mod 256,
                     int (length payload) mod 256] @ payload)"
proof -
  have r: "replicate (5 + length payload) (0::int)
           = 0 # 0 # 0 # 0 # 0 # replicate (length payload) 0"
    by (simp add: numeral_eq_Suc)
  show ?thesis using assms
    by (simp add: writeUInt32BE_def r Buffer_copy_def)
qed

text \<open>
  C6. Whatever the inputs, when the payload (the bytes of the request) is shorter than
  2^32 bytes, as every array of the language is, \<open>buildChatRequest\<close> returns a frame
  of five bytes more than the payload: the byte 0, then four bytes that, read as a
  big-endian number, give the payload's length, then the payload itself.
\<close>

theorem buildChatRequest_frame:
  assumes "length (payload_of src now uuid key ver modelEnum msgs) < 2 ^ 32"
  shows "\<exists>frame. buildChatRequest src now uuid key ver modelEnum msgs = Inr frame
           \<and> length frame = 5 + length (payload_of src now uuid key ver modelEnum msgs)
           \<and> take 1 frame = [0]
           \<and> list_all (\<lambda>b. 0 \<le> b \<and> b < 256) (take 4 (drop 1 frame))
           \<and> uint32be (take 4 (drop 1 frame))
               = int (length (payload_of src now uuid key ver modelEnum msgs))
           \<and> drop 5 frame = payload_of src now uuid key ver modelEnum msgs"
proof -
  define p where "p = payload_of src now uuid key ver modelEnum msgs"
  define n where "n = int (length p)"
  define hdr where
    "hdr = [n div 16777216 mod 256, n div 65536 mod 256, n div 256 mod 256, n mod 256]"
  have n: "0 \<le> n" "n < 4294967296" using assms by (simp_all add: n_def p_def)
  have "buildChatRequest src now uuid key ver modelEnum msgs = Inr (0 # hdr @ p)"
    unfolding buildChatRequest_def Let_def hdr_def n_def p_def
    by (rule frame_layout) (use n in \<open>simp add: n_def p_def\<close>)
  moreover have "uint32be hdr = n"
    unfolding hdr_def using n by (rule uint32be_bytes)
  moreover have "length hdr = 4" by (simp add: hdr_def)
  moreover have "list_all (\<lambda>b. 0 \<le> b \<and> b < 256) hdr" by (simp add: hdr_def)
  ultimately have "buildChatRequest src now uuid key ver modelEnum msgs = Inr (0 # hdr @ p)
           \<and> length (0 # hdr @ p) = 5 + length p
           \<and> take 1 (0 # hdr @ p) = [0]
           \<and> list_all (\<lambda>b. 0 \<le> b \<and> b < 256) (take 4 (drop 1 (0 # hdr @ p)))
           \<and> uint32be (take 4 (drop 1 (0 # hdr @ p))) = int (length p)
           \<and> drop 5 (0 # hdr @ p) = p"
    by (simp add: n_def)
  then show ?thesis unfolding p_def by blast
qed

theorem buildChatRequest_frame_witness:
  "length (payload_of \<lparr>USER = 1, ASSISTANT = 2, SYSTEM = 3, TOOL = 4\<rparr> 1700000000000
             ''uuid'' ''key'' ''1.0'' 109 [\<lparr>role = ''user'', content = ''hi''\<rparr>]) < 2 ^ 32
   \<and> (\<exists>frame. buildChatRequest \<lparr>USER = 1, ASSISTANT = 2, SYSTEM = 3, TOOL = 4\<rparr>
                  1700000000000 ''uuid'' ''key'' ''1.0'' 109
                  [\<lparr>role = ''user'', content = ''hi''\<rparr>] = Inr frame
          \<and> length frame = 5 + length (payload_of \<lparr>USER = 1, ASSISTANT = 2, SYSTEM = 3, TOOL = 4\<rparr>
                1700000000000 ''uuid'' ''key'' ''1.0'' 109 [\<lparr>role = ''user'', content = ''hi''\<rparr>])
          \<and> take 1 frame = [0]
          \<and> list_all (\<lambda>b. 0 \<le> b \<and> b < 256) (take 4 (drop 1 frame))
          \<and> uint32be (take 4 (drop 1 frame))
              = int (length (payload_of \<lparr>USER = 1, ASSISTANT = 2, SYSTEM = 3, TOOL = 4\<rparr>
                  1700000000000 ''uuid'' ''key'' ''1.0'' 109 [\<lparr>role = ''user'', content = ''hi''\<rparr>]))
          \<and> drop 5 frame = payload_of \<lparr>USER = 1, ASSISTANT = 2, SYSTEM = 3, TOOL = 4\<rparr>
                1700000000000 ''uuid'' ''key'' ''1.0'' 109 [\<lparr>role = ''user'', content = ''hi''\<rparr>])"
proof -
  have h: "length (payload_of \<lparr>USER = 1, ASSISTANT = 2, SYSTEM = 3, TOOL = 4\<rparr> 1700000000000
             ''uuid'' ''key'' ''1.0'' 109 [\<lparr>role = ''user'', content = ''hi''\<rparr>]) < 2 ^ 32"
    by (simp add: payload_of_def chat_request_def Buffer_from_def encodeMessage_def
        encodeMetadata_def encodeString_def encodeVarintField_def
        encodeFormattedChatMessage_def utf8_def Let_def encodeVarint.simps roleToSource_def)
  from h buildChatRequest_frame[OF h] show ?thesis by (rule conjI)
qed

section \<open>Properties of the request\<close>

lemma tag_values:
  "js_bitor (js_shl 1 3) 2 = 10" "js_bitor (js_shl 2 3) 2 = 18" "js_bitor (js_shl 3 3) 2 = 26"
  "js_bitor (js_shl 4 3) 0 = 32" "js_bitor (js_shl 1 3) 0 = 8"
  by (simp_all add: js_bitor_def js_shl_def toInt32_def)

lemma encodeVarint_bytes:
  "0 \<le> v \<Longrightarrow> list_all (\<lambda>b. 0 \<le> b \<and> b < 256) (encodeVarint v)"
proof (induction v rule: encodeVarint.induct)
  case (1 v)
  show ?case
  proof (cases "v > 127")
    case True
    have "0 \<le> drop_bit 7 v" using "1.prems" by simp
    with "1.IH" True
    have "list_all (\<lambda>b. 0 \<le> b \<and> b < 256) (encodeVarint (v div 128))"
      by (simp add: drop_bit_eq_div)
    moreover have "0 \<le> v mod 128 + 128" "v mod 128 + 128 < 256" by simp_all
    moreover have "encodeVarint v = (v mod 128 + 128) # encodeVarint (v div 128)"
      using True by (rule encodeVarint_large)
    ultimately show ?thesis by simp
  next
    case False
    then have "encodeVarint v = [v]" by (rule encodeVarint_small)
    with False "1.prems" show ?thesis by simp
  qed
qed

lemma Buffer_from_bytes: "list_all (\<lambda>b. 0 \<le> b \<and> b < 256) xs \<Longrightarrow> Buffer_from xs = xs"
  by (induction xs) (simp_all add: Buffer_from_def)

lemma Buffer_from_append: "Buffer_from (xs @ ys) = Buffer_from xs @ Buffer_from ys"
  by (simp add: Buffer_from_def)

lemma Buffer_from_Cons: "Buffer_from (x # xs) = x mod 256 # Buffer_from xs"
  by (simp add: Buffer_from_def)

lemma Buffer_from_utf8: "Buffer_from (utf8 s) = utf8 s"
  by (simp add: Buffer_from_def utf8_def)

lemma Buffer_from_varint: "0 \<le> v \<Longrightarrow> Buffer_from (encodeVarint v) = encodeVarint v"
  by (rule Buffer_from_bytes) (rule encodeVarint_bytes)

lemma length_Buffer_from: "length (Buffer_from xs) = length xs"
  by (simp add: Buffer_from_def)

lemma decodeFields_len:
  assumes "0 \<le> t" "t < 128" "t mod 8 = 2"
  shows "decodeFields (t # encodeVarint (int (length d)) @ d @ rest) =
         map_option ((#) (t div 8, LengthDelimited d)) (decodeFields rest)"
proof -
  have "varint_decode (t # encodeVarint (int (length d)) @ d @ rest)
        = Some (t, encodeVarint (int (length d)) @ d @ rest)"
    using assms by simp
  moreover have "varint_decode (encodeVarint (int (length d)) @ d @ rest)
                 = Some (int (length d), d @ rest)"
    by (rule varint_roundtrip) simp
  ultimately show ?thesis using assms
    by (subst decodeFields.simps) simp
qed

lemma decodeFields_varint:
  assumes "0 \<le> t" "t < 128" "t mod 8 = 0" "0 \<le> v"
  shows "decodeFields (t # encodeVarint v @ rest) =
         map_option ((#) (t div 8, Varint v)) (decodeFields rest)"
proof -
  have "varint_decode (t # encodeVarint v @ rest) = Some (t, encodeVarint v @ rest)"
    using assms by simp
  moreover have "varint_decode (encodeVarint v @ rest) = Some (v, rest)"
    using assms by (simp add: varint_roundtrip)
  ultimately show ?thesis using assms
    by (subst decodeFields.simps) simp
qed

lemma decodeFields_Nil: "decodeFields [] = Some []"
  by (subst decodeFields.simps) simp

text \<open>The bytes of the three kinds of top-level field, and how they are read back.\<close>

lemma bytes_encodeMessage:
  "Buffer_from (encodeMessage 1 d) = 10 # encodeVarint (int (length (Buffer_from d))) @ Buffer_from d"
  "Buffer_from (encodeMessage 2 d) = 18 # encodeVarint (int (length (Buffer_from d))) @ Buffer_from d"
  by (simp_all add: encodeMessage_def tag_values Buffer_from_Cons Buffer_from_append
        Buffer_from_varint length_Buffer_from)

lemma bytes_encodeString3:
  "Buffer_from (encodeString 3 s) = 26 # encodeVarint (int (length (utf8 s))) @ utf8 s"
  by (simp add: encodeString_def Let_def tag_values Buffer_from_Cons Buffer_from_append
        Buffer_from_varint Buffer_from_utf8)

lemma bytes_encodeVarintField:
  "0 \<le> v \<Longrightarrow> Buffer_from (encodeVarintField 4 v) = 32 # encodeVarint v"
  "0 \<le> v \<Longrightarrow> Buffer_from (encodeVarintField 1 v) = 8 # encodeVarint v"
  by (simp_all add: encodeVarintField_def tag_values Buffer_from_Cons Buffer_from_varint)

lemma read_message1:
  "decodeFields (Buffer_from (encodeMessage 1 d) @ rest)
   = map_option ((#) (1, LengthDelimited (Buffer_from d))) (decodeFields rest)"
  using decodeFields_len[of 10 "Buffer_from d" rest] by (simp add: bytes_encodeMessage)

lemma read_message2:
  "decodeFields (Buffer_from (encodeMessage 2 d) @ rest)
   = map_option ((#) (2, LengthDelimited (Buffer_from d))) (decodeFields rest)"
  using decodeFields_len[of 18 "Buffer_from d" rest] by (simp add: bytes_encodeMessage)

lemma read_string3:
  "decodeFields (Buffer_from (encodeString 3 s) @ rest)
   = map_option ((#) (3, LengthDelimited (utf8 s))) (decodeFields rest)"
  using decodeFields_len[of 26 "utf8 s" rest] by (simp add: bytes_encodeString3)

lemma read_varint4:
  "0 \<le> v \<Longrightarrow> decodeFields (Buffer_from (encodeVarintField 4 v) @ rest)
   = map_option ((#) (4, Varint v)) (decodeFields rest)"
  using decodeFields_varint[of 32 v rest] by (simp add: bytes_encodeVarintField)

lemma read_varint1:
  "0 \<le> v \<Longrightarrow> decodeFields (Buffer_from (encodeVarintField 1 v) @ rest)
   = map_option ((#) (1, Varint v)) (decodeFields rest)"
  using decodeFields_varint[of 8 v rest] by (simp add: bytes_encodeVarintField)

lemma read_chat_entry:
  assumes "0 \<le> r"
  shows "decodeFields (Buffer_from (encodeFormattedChatMessage r c [] []))
         = Some [(1, Varint r), (3, LengthDelimited (utf8 c))]"
proof -
  have "Buffer_from (encodeFormattedChatMessage r c [] [])
        = Buffer_from (encodeVarintField 1 r) @ Buffer_from (encodeString 3 c) @ []"
    by (simp add: encodeFormattedChatMessage_def Buffer_from_append)
  then show ?thesis
    using assms by (simp only: read_varint1 read_string3 decodeFields_Nil) simp
qed

text \<open>
  C3. For the messages system "S", user "U" (and any key, version, clock, UUID, a
  model code and a USER code that are not negative), the payload reads as four
  top-level fields numbered 1, 2, 3, 4. So there is exactly one field 3, holding the
  bytes of "S", and exactly one field 2; the field 2 is a chat entry with the role
  USER and the content "U".
\<close>

theorem system_prompt_and_chat_entry:
  assumes "0 \<le> modelEnum" and "0 \<le> USER src"
  shows "\<exists>fs chat.
           decodeFields (payload_of src now uuid key ver modelEnum
               [\<lparr>role = ''system'', content = ''S''\<rparr>, \<lparr>role = ''user'', content = ''U''\<rparr>])
             = Some fs
           \<and> map fst fs = [1, 2, 3, 4]
           \<and> fields_numbered 3 fs = [LengthDelimited (utf8 ''S'')]
           \<and> fields_numbered 2 fs = [LengthDelimited chat]
           \<and> decodeFields chat = Some [(1, Varint (USER src)), (3, LengthDelimited (utf8 ''U''))]"
proof -
  define md where "md = Buffer_from (encodeMetadata now uuid key ver)"
  define chat where "chat = Buffer_from (encodeFormattedChatMessage (USER src) ''U'' [] [])"
  define fs where "fs = [(1, LengthDelimited md), (2, LengthDelimited chat),
      (3, LengthDelimited (utf8 ''S'')), (4::int, Varint modelEnum)]"
  have "payload_of src now uuid key ver modelEnum
          [\<lparr>role = ''system'', content = ''S''\<rparr>, \<lparr>role = ''user'', content = ''U''\<rparr>]
        = Buffer_from (encodeMessage 1 (encodeMetadata now uuid key ver))
          @ Buffer_from (encodeMessage 2 (encodeFormattedChatMessage (USER src) ''U'' [] []))
          @ Buffer_from (encodeString 3 ''S'')
          @ Buffer_from (encodeVarintField 4 modelEnum) @ []"
    by (simp add: payload_of_def chat_request_def roleToSource_def Buffer_from_append)
  then have "decodeFields (payload_of src now uuid key ver modelEnum
          [\<lparr>role = ''system'', content = ''S''\<rparr>, \<lparr>role = ''user'', content = ''U''\<rparr>]) = Some fs"
    using assms(1)
    by (simp only: read_message1 read_message2 read_string3 read_varint4 decodeFields_Nil)
       (simp add: fs_def md_def chat_def)
  moreover have "map fst fs = [1, 2, 3, 4]"
    by (simp add: fs_def)
  moreover have "fields_numbered 3 fs = [LengthDelimited (utf8 ''S'')]"
    by (simp add: fs_def fields_numbered_def)
  moreover have "fields_numbered 2 fs = [LengthDelimited chat]"
    by (simp add: fs_def fields_numbered_def)
  moreover have "decodeFields chat = Some [(1, Varint (USER src)), (3, LengthDelimited (utf8 ''U''))]"
    unfolding chat_def using assms(2) by (rule read_chat_entry)
  ultimately have "decodeFields (payload_of src now uuid key ver modelEnum
               [\<lparr>role = ''system'', content = ''S''\<rparr>, \<lparr>role = ''user'', content = ''U''\<rparr>])
             = Some fs
           \<and> map fst fs = [1, 2, 3, 4]
           \<and> fields_numbered 3 fs = [LengthDelimited (utf8 ''S'')]
           \<and> fields_numbered 2 fs = [LengthDelimited chat]
           \<and> decodeFields chat = Some [(1, Varint (USER src)), (3, LengthDelimited (utf8 ''U''))]"
    by simp
  then show ?thesis by - (rule exI[of _ fs], rule exI[of _ chat], assumption)
qed

theorem system_prompt_and_chat_entry_witness:
  "(0::int) \<le> 109 \<and> 0 \<le> USER \<lparr>USER = 1, ASSISTANT = 2, SYSTEM = 3, TOOL = 4\<rparr>
   \<and> (\<exists>fs chat.
           decodeFields (payload_of \<lparr>USER = 1, ASSISTANT = 2, SYSTEM = 3, TOOL = 4\<rparr>
               1700000000000 ''uuid'' ''key'' ''1.0'' 109
               [\<lparr>role = ''system'', content = ''S''\<rparr>, \<lparr>role = ''user'', content = ''U''\<rparr>])
             = Some fs
           \<and> map fst fs = [1, 2, 3, 4]
           \<and> fields_numbered 3 fs = [LengthDelimited (utf8 ''S'')]
           \<and> fields_numbered 2 fs = [LengthDelimited chat]
           \<and> decodeFields chat
               = Some [(1, Varint (USER \<lparr>USER = 1, ASSISTANT = 2, SYSTEM = 3, TOOL = 4\<rparr>)),
                       (3, LengthDelimited (utf8 ''U''))])"
proof -
  have a: "(0::int) \<le> 109" by simp
  have b: "0 \<le> USER \<lparr>USER = 1, ASSISTANT = 2, SYSTEM = 3, TOOL = 4\<rparr>" by simp
  from a b system_prompt_and_chat_entry[OF a b, of 1700000000000 "''uuid''" "''key''" "''1.0''"]
  show ?thesis by (intro conjI)
qed

text \<open>What the loop over the messages leaves in its two variables.\<close>

lemma chat_loop_request:
  "snd (chat_loop src msgs (sp, req))
   = req @ concat (map (\<lambda>m. encodeMessage 2
        (encodeFormattedChatMessage (roleToSource src (role m)) (content m) [] []))
        (filter (\<lambda>m. role m \<noteq> ''system'') msgs))"
  by (induction msgs arbitrary: sp req) (simp_all add: Let_def)

lemma chat_loop_prompt_empty:
  "list_all (\<lambda>m. role m = ''system'' \<longrightarrow> content m = []) msgs
   \<Longrightarrow> fst (chat_loop src msgs ([], req)) = []"
  by (induction msgs arbitrary: req) (simp_all add: Let_def)

lemma chat_loop_prompt_no_system:
  "list_all (\<lambda>m. role m \<noteq> ''system'') msgs \<Longrightarrow> fst (chat_loop src msgs (sp, req)) = sp"
  by (induction msgs arbitrary: req) (simp_all add: Let_def)

lemma read_chat_entries:
  "decodeFields (Buffer_from (concat (map (\<lambda>m. encodeMessage 2 (f m)) ms)) @ rest)
   = map_option ((@) (map (\<lambda>m. (2, LengthDelimited (Buffer_from (f m)))) ms)) (decodeFields rest)"
proof (induction ms)
  case Nil
  show ?case by (simp add: Buffer_from_def option.map_ident)
next
  case (Cons m ms)
  have "decodeFields (Buffer_from (concat (map (\<lambda>m. encodeMessage 2 (f m)) (m # ms))) @ rest)
        = decodeFields (Buffer_from (encodeMessage 2 (f m))
            @ (Buffer_from (concat (map (\<lambda>m. encodeMessage 2 (f m)) ms)) @ rest))"
    by (simp add: Buffer_from_append)
  also have "\<dots> = map_option ((#) (2, LengthDelimited (Buffer_from (f m))))
      (decodeFields (Buffer_from (concat (map (\<lambda>m. encodeMessage 2 (f m)) ms)) @ rest))"
    by (rule read_message2)
  finally show ?case
    by (simp add: Cons.IH option.map_comp comp_def)
qed

lemma fields_numbered_Cons:
  "fields_numbered k ((j, v) # fs)
   = (if j = k then v # fields_numbered k fs else fields_numbered k fs)"
  by (simp add: fields_numbered_def)

lemma fields_numbered_Nil: "fields_numbered k [] = []"
  by (simp add: fields_numbered_def)

lemma fields_numbered_append:
  "fields_numbered k (fs @ gs) = fields_numbered k fs @ fields_numbered k gs"
  by (simp add: fields_numbered_def)

lemma fields_numbered_same: "fields_numbered k (map (\<lambda>m. (k, g m)) ms) = map g ms"
  by (induction ms) (simp_all add: fields_numbered_def)

lemma fields_numbered_other:
  "j \<noteq> k \<Longrightarrow> fields_numbered k (map (\<lambda>m. (j, g m)) ms) = []"
  by (induction ms) (simp_all add: fields_numbered_def)

lemma chat_request_without_prompt:
  assumes "fst (chat_loop src msgs ([], encodeMessage 1 (encodeMetadata now uuid key ver))) = []"
  shows "chat_request src now uuid key ver modelEnum msgs
         = encodeMessage 1 (encodeMetadata now uuid key ver)
           @ concat (map (\<lambda>m. encodeMessage 2
               (encodeFormattedChatMessage (roleToSource src (role m)) (content m) [] []))
               (filter (\<lambda>m. role m \<noteq> ''system'') msgs))
           @ encodeVarintField 4 modelEnum"
  using assms chat_loop_request[of src msgs "[]" "encodeMessage 1 (encodeMetadata now uuid key ver)"]
  by (simp add: chat_request_def Let_def case_prod_beta)

text \<open>
  C10. When every system message of the list has the empty string as its content (in
  particular when the list's one system message has), the frame is byte for byte the
  frame of the list without its system messages; and, the model code not being
  negative, the payload reads as fields among which none has the number 3, while the
  fields numbered 2 are the chat entries of the other messages, in their order.
\<close>

theorem empty_system_message_dropped:
  assumes "list_all (\<lambda>m. role m = ''system'' \<longrightarrow> content m = []) msgs" and "0 \<le> modelEnum"
  shows "buildChatRequest src now uuid key ver modelEnum msgs
           = buildChatRequest src now uuid key ver modelEnum
               (filter (\<lambda>m. role m \<noteq> ''system'') msgs)
         \<and> (\<exists>fs. decodeFields (payload_of src now uuid key ver modelEnum msgs) = Some fs
               \<and> fields_numbered 3 fs = []
               \<and> fields_numbered 2 fs
                   = map (\<lambda>m. LengthDelimited (Buffer_from
                           (encodeFormattedChatMessage (roleToSource src (role m)) (content m) [] [])))
                       (filter (\<lambda>m. role m \<noteq> ''system'') msgs))"
proof -
  let ?others = "filter (\<lambda>m. role m \<noteq> ''system'') msgs"
  let ?f = "\<lambda>m. encodeFormattedChatMessage (roleToSource src (role m)) (content m) [] []"
  define md where "md = encodeMetadata now uuid key ver"
  define fs where "fs = (1, LengthDelimited (Buffer_from md))
      # map (\<lambda>m. (2, LengthDelimited (Buffer_from (?f m)))) ?others @ [(4::int, Varint modelEnum)]"
  have p1: "fst (chat_loop src msgs ([], encodeMessage 1 md)) = []"
    using assms(1) by (rule chat_loop_prompt_empty)
  have "list_all (\<lambda>m. role m \<noteq> ''system'') ?others"
    by (simp add: list_all_iff)
  then have p2: "fst (chat_loop src ?others ([], encodeMessage 1 md)) = []"
    by (rule chat_loop_prompt_no_system)
  have r1: "chat_request src now uuid key ver modelEnum msgs
            = encodeMessage 1 md @ concat (map (\<lambda>m. encodeMessage 2 (?f m)) ?others)
              @ encodeVarintField 4 modelEnum"
    unfolding md_def by (rule chat_request_without_prompt) (rule p1[unfolded md_def])
  have "chat_request src now uuid key ver modelEnum ?others
            = encodeMessage 1 md @ concat (map (\<lambda>m. encodeMessage 2 (?f m)) (filter (\<lambda>m. role m \<noteq> ''system'') ?others))
              @ encodeVarintField 4 modelEnum"
    unfolding md_def by (rule chat_request_without_prompt) (rule p2[unfolded md_def])
  then have r2: "chat_request src now uuid key ver modelEnum ?others
                 = chat_request src now uuid key ver modelEnum msgs"
    by (simp add: r1)
  have same: "buildChatRequest src now uuid key ver modelEnum msgs
              = buildChatRequest src now uuid key ver modelEnum ?others"
    by (simp add: buildChatRequest_def payload_of_def r2)
  have "payload_of src now uuid key ver modelEnum msgs
        = Buffer_from (encodeMessage 1 md)
          @ Buffer_from (concat (map (\<lambda>m. encodeMessage 2 (?f m)) ?others))
          @ Buffer_from (encodeVarintField 4 modelEnum) @ []"
    by (simp add: payload_of_def r1 Buffer_from_append)
  then have d: "decodeFields (payload_of src now uuid key ver modelEnum msgs) = Some fs"
    using assms(2)
    by (simp only: read_message1 read_chat_entries read_varint4 decodeFields_Nil)
       (simp add: fs_def)
  have f3: "fields_numbered 3 fs = []"
    unfolding fs_def
    by (simp add: fields_numbered_Cons fields_numbered_Nil fields_numbered_append
          fields_numbered_other[of 2 3])
  have f2: "fields_numbered 2 fs = map (\<lambda>m. LengthDelimited (Buffer_from (?f m))) ?others"
    unfolding fs_def
    by (simp add: fields_numbered_Cons fields_numbered_Nil fields_numbered_append
          fields_numbered_same[of 2 "\<lambda>m. LengthDelimited (Buffer_from (?f m))"])
  from d f3 f2 have "decodeFields (payload_of src now uuid key ver modelEnum msgs) = Some fs
      \<and> fields_numbered 3 fs = []
      \<and> fields_numbered 2 fs = map (\<lambda>m. LengthDelimited (Buffer_from (?f m))) ?others"
    by (intro conjI)
  then have "\<exists>fs. decodeFields (payload_of src now uuid key ver modelEnum msgs) = Some fs
      \<and> fields_numbered 3 fs = []
      \<and> fields_numbered 2 fs = map (\<lambda>m. LengthDelimited (Buffer_from (?f m))) ?others"
    by - (rule exI[of _ fs], assumption)
  with same show ?thesis by (intro conjI)
qed

theorem empty_system_message_dropped_witness:
  "list_all (\<lambda>m. role m = ''system'' \<longrightarrow> content m = [])
     [\<lparr>role = ''system'', content = []\<rparr>, \<lparr>role = ''user'', content = ''U''\<rparr>]
   \<and> (0::int) \<le> 109
   \<and> buildChatRequest \<lparr>USER = 1, ASSISTANT = 2, SYSTEM = 3, TOOL = 4\<rparr> 1700000000000
         ''uuid'' ''key'' ''1.0'' 109
         [\<lparr>role = ''system'', content = []\<rparr>, \<lparr>role = ''user'', content = ''U''\<rparr>]
       = buildChatRequest \<lparr>USER = 1, ASSISTANT = 2, SYSTEM = 3, TOOL = 4\<rparr> 1700000000000
         ''uuid'' ''key'' ''1.0'' 109 [\<lparr>role = ''user'', content = ''U''\<rparr>]
   \<and> (\<exists>fs. decodeFields (payload_of \<lparr>USER = 1, ASSISTANT = 2, SYSTEM = 3, TOOL = 4\<rparr>
               1700000000000 ''uuid'' ''key'' ''1.0'' 109
               [\<lparr>role = ''system'', content = []\<rparr>, \<lparr>role = ''user'', content = ''U''\<rparr>])
             = Some fs
         \<and> fields_numbered 3 fs = []
         \<and> fields_numbered 2 fs
             = [LengthDelimited (Buffer_from (encodeFormattedChatMessage 1 ''U'' [] []))])"
proof -
  have a: "list_all (\<lambda>m. role m = ''system'' \<longrightarrow> content m = [])
     [\<lparr>role = ''system'', content = []\<rparr>, \<lparr>role = ''user'', content = ''U''\<rparr>]"
    by simp
  have b: "(0::int) \<le> 109" by simp
  have c: "roleToSource \<lparr>USER = 1, ASSISTANT = 2, SYSTEM = 3, TOOL = 4\<rparr> ''user'' = 1"
    by (simp add: roleToSource_def)
  from empty_system_message_dropped[OF a b,
      of "\<lparr>USER = 1, ASSISTANT = 2, SYSTEM = 3, TOOL = 4\<rparr>" 1700000000000 "''uuid''" "''key''" "''1.0''"]
  have "buildChatRequest \<lparr>USER = 1, ASSISTANT = 2, SYSTEM = 3, TOOL = 4\<rparr> 1700000000000
         ''uuid'' ''key'' ''1.0'' 109
         [\<lparr>role = ''system'', content = []\<rparr>, \<lparr>role = ''user'', content = ''U''\<rparr>]
       = buildChatRequest \<lparr>USER = 1, ASSISTANT = 2, SYSTEM = 3, TOOL = 4\<rparr> 1700000000000
         ''uuid'' ''key'' ''1.0'' 109 [\<lparr>role = ''user'', content = ''U''\<rparr>]
   \<and> (\<exists>fs. decodeFields (payload_of \<lparr>USER = 1, ASSISTANT = 2, SYSTEM = 3, TOOL = 4\<rparr>
               1700000000000 ''uuid'' ''key'' ''1.0'' 109
               [\<lparr>role = ''system'', content = []\<rparr>, \<lparr>role = ''user'', content = ''U''\<rparr>])
             = Some fs
         \<and> fields_numbered 3 fs = []
         \<and> fields_numbered 2 fs
             = [LengthDelimited (Buffer_from (encodeFormattedChatMessage 1 ''U'' [] []))])"
    by (simp add: c)
  then show ?thesis by (rule conjI[OF a conjI[OF b]])
qed

section \<open>Properties of the start of a call\<close>

text \<open>
  C8. When the table has no code for the model name of the options, the call fails
  with \<open>ModelNotFound\<close> before the frame is built and before \<open>http2.connect\<close>: no
  connection is made, in push mode and in pull mode.
\<close>

theorem unknown_model_fails_before_connect:
  assumes "table (model options) = None"
  shows "streamChat table src now uuid credentials options
           = (Inl (ModelNotFound (model options)), 0)
         \<and> streamChatGenerator table src now uuid credentials options
           = (Inl (ModelNotFound (model options)), 0)"
  using assms by (simp add: streamChat_def streamChatGenerator_def modelNameToEnum_def)

theorem unknown_model_fails_before_connect_witness:
  "[''gpt-4o'' \<mapsto> (109::int)] (model \<lparr>model = ''nope'', messages = []\<rparr>) = None
   \<and> streamChat [''gpt-4o'' \<mapsto> 109] \<lparr>USER = 1, ASSISTANT = 2, SYSTEM = 3, TOOL = 4\<rparr>
         1700000000000 ''uuid''
         \<lparr>csrfToken = ''t'', port = 42100, apiKey = ''key'', version = ''1.0''\<rparr>
         \<lparr>model = ''nope'', messages = []\<rparr>
       = (Inl (ModelNotFound ''nope''), 0)
   \<and> streamChatGenerator [''gpt-4o'' \<mapsto> 109] \<lparr>USER = 1, ASSISTANT = 2, SYSTEM = 3, TOOL = 4\<rparr>
         1700000000000 ''uuid''
         \<lparr>csrfToken = ''t'', port = 42100, apiKey = ''key'', version = ''1.0''\<rparr>
         \<lparr>model = ''nope'', messages = []\<rparr>
       = (Inl (ModelNotFound ''nope''), 0)"
proof -
  have a: "[''gpt-4o'' \<mapsto> (109::int)] (model \<lparr>model = ''nope'', messages = []\<rparr>) = None"
    by simp
  from unknown_model_fails_before_connect[where table = "[''gpt-4o'' \<mapsto> 109]"
      and options = "\<lparr>model = ''nope'', messages = []\<rparr>", OF a] a
  show ?thesis by simp
qed

section \<open>Properties of push mode\<close>

lemma streamChat_events_append:
  "streamChat_events (es @ es') s = streamChat_events es' (streamChat_events es s)"
  by (induction es arbitrary: s) (simp_all split: sum.splits)

lemma extract_samples:
  "extractTextFromChunk (ascii ''Hel'') = ''Hel''"
  "extractTextFromChunk (ascii ''lo'') = ''lo''"
  "extractTextFromChunk (ascii '' world'') = ''world''"
  by code_simp+

lemma decode_samples:
  "decodeURIComponent ''boom'' = Inr ''boom''"
  "decodeURIComponent ''100%'' = Inl URIError"
  by code_simp+

text \<open>
  C1, as the code has it. For the chunks "Hel", "lo", " world", then the trailer with
  status 0 and the end of the stream, the promise is resolved with "Helloworld": the
  concatenation, in order, of the texts the decoder returns, and the decoder trims
  every chunk, so the blank before "world" is lost. The three texts were passed to
  \<open>onChunk\<close>, and at the end of the stream \<open>onComplete\<close> has been called with
  "Helloworld"; no error was reported and no listener threw.
\<close>

theorem streamChat_hello_world:
  "streamChat_events
     [Connect, Data (ascii ''Hel''), Data (ascii ''lo''), Data (ascii '' world''),
      Trailers (Some ''0'') None, End] streamChat_init
   = \<lparr>requested = True, requests = 1, closes = 1, chunks = [''Hel'', ''lo'', ''world''],
      onChunk_calls = [''Hel'', ''lo'', ''world''], onComplete_calls = [''Helloworld''],
      onError_calls = [], settled = Some (Resolved ''Helloworld''), uncaught = []\<rparr>"
  by (simp add: streamChat_init_def extract_samples settle_def Let_def)

text \<open>C1 as stated fails: the promise is not resolved with "Hello world".\<close>

theorem streamChat_hello_world_counterexample:
  "settled (streamChat_events
        [Connect, Data (ascii ''Hel''), Data (ascii ''lo''), Data (ascii '' world''),
         Trailers (Some ''0'') None, End] streamChat_init)
   = Some (Resolved ''Helloworld'')
   \<and> settled (streamChat_events
        [Connect, Data (ascii ''Hel''), Data (ascii ''lo''), Data (ascii '' world''),
         Trailers (Some ''0'') None, End] streamChat_init)
   \<noteq> Some (Resolved ''Hello world'')"
  by (simp add: streamChat_init_def extract_samples settle_def Let_def)

text \<open>
  The timer of \<open>streamChat\<close> is never cleared: when it fires after the end of the
  stream, \<open>onComplete\<close> is called a second time (and \<open>client.close()\<close> as well).
\<close>

lemma streamChat_timer_after_end:
  "streamChat_events
     [Connect, Data (ascii ''Hel''), Data (ascii ''lo''), Data (ascii '' world''),
      Trailers (Some ''0'') None, End, Timeout] streamChat_init
   = \<lparr>requested = True, requests = 1, closes = 2, chunks = [''Hel'', ''lo'', ''world''],
      onChunk_calls = [''Hel'', ''lo'', ''world''],
      onComplete_calls = [''Helloworld'', ''Helloworld''],
      onError_calls = [], settled = Some (Resolved ''Helloworld''), uncaught = []\<rparr>"
  by (simp add: streamChat_init_def extract_samples settle_def Let_def)

text \<open>
  Once the request exists, the calls of \<open>onChunk\<close> and the array \<open>chunks\<close> grow by the
  decoded texts of the chunks delivered, whatever else happens.
\<close>

lemma texts_Cons: "texts (e # es) = texts [e] @ texts es"
  by (cases e) simp_all

lemma streamChat_on_throws: "streamChat_on e s = Inl err \<Longrightarrow> texts [e] = []"
  by (cases e) (auto simp: Let_def split: if_splits sum.splits)

lemma streamChat_on_texts:
  "streamChat_on e s = Inr s' \<Longrightarrow> requested s
   \<Longrightarrow> requested s' \<and> onChunk_calls s' = onChunk_calls s @ texts [e]
       \<and> chunks s' = chunks s @ texts [e]"
  by (cases e) (auto simp: settle_def Let_def split: if_splits sum.splits)

lemma streamChat_events_texts:
  "requested s
   \<Longrightarrow> requested (streamChat_events es s)
       \<and> onChunk_calls (streamChat_events es s) = onChunk_calls s @ texts es
       \<and> chunks (streamChat_events es s) = chunks s @ texts es"
proof (induction es arbitrary: s)
  case Nil
  then show ?case by simp
next
  case (Cons e es)
  show ?case
  proof (cases "streamChat_on e s")
    case (Inl err)
    have "requested (s\<lparr>uncaught := uncaught s @ [err]\<rparr>)" using Cons.prems by simp
    from Cons.IH[OF this] Inl streamChat_on_throws[OF Inl] texts_Cons[of e es]
    show ?thesis by simp
  next
    case (Inr s1)
    from streamChat_on_texts[OF Inr Cons.prems] have r: "requested s1"
      and c: "onChunk_calls s1 = onChunk_calls s @ texts [e]"
        "chunks s1 = chunks s @ texts [e]" by simp_all
    from Cons.IH[OF r] Inr c texts_Cons[of e es] show ?thesis by simp
  qed
qed

lemma streamChat_connected:
  "requested (streamChat_events (Connect # es) streamChat_init)
   \<and> onChunk_calls (streamChat_events (Connect # es) streamChat_init) = texts es
   \<and> chunks (streamChat_events (Connect # es) streamChat_init) = texts es"
proof -
  let ?s0 = "streamChat_init\<lparr>requested := True, requests := requests streamChat_init + 1\<rparr>"
  have "streamChat_events (Connect # es) streamChat_init = streamChat_events es ?s0"
    by (simp add: streamChat_init_def)
  moreover have "requested ?s0" by simp
  ultimately show ?thesis
    using streamChat_events_texts[of ?s0 es] by (simp add: streamChat_init_def)
qed

text \<open>
  The timer in push mode: when it fires while the promise is pending,
  \<open>client.close()\<close> is called, \<open>onComplete\<close> is called with the concatenation of
  the texts collected, and the promise is resolved with it. While a stream only
  stalls the promise stays pending, so this is what happens to every stalled call.
\<close>

lemma streamChat_pending_timeout:
  assumes "settled (streamChat_events es s0) = None"
  shows "streamChat_events (es @ [Timeout]) s0
         = (streamChat_events es s0)
             \<lparr>closes := closes (streamChat_events es s0) + 1,
              onComplete_calls := onComplete_calls (streamChat_events es s0)
                 @ [concat (chunks (streamChat_events es s0))],
              settled := Some (Resolved (concat (chunks (streamChat_events es s0))))\<rparr>"
  using assms by (simp add: streamChat_events_append settle_def Let_def)

lemma streamChat_on_stalls:
  "stalls e \<Longrightarrow> closes s = 0
   \<Longrightarrow> \<exists>s'. streamChat_on e s = Inr s' \<and> settled s' = settled s \<and> closes s' = 0"
  by (cases e) (simp_all add: Let_def)

lemma streamChat_stalled_pending:
  "list_all stalls es \<Longrightarrow> closes s = 0
   \<Longrightarrow> settled (streamChat_events es s) = settled s \<and> closes (streamChat_events es s) = 0"
proof (induction es arbitrary: s)
  case Nil
  then show ?case by simp
next
  case (Cons e es)
  then have "stalls e" "list_all stalls es" by simp_all
  from streamChat_on_stalls[OF this(1) Cons.prems(2)] obtain s1 where
    s1: "streamChat_on e s = Inr s1" "settled s1 = settled s" "closes s1 = 0" by blast
  from Cons.IH[OF \<open>list_all stalls es\<close> s1(3)] s1 show ?case by simp
qed

lemma streamChat_stalled_timeout:
  assumes "list_all stalls es"
  shows "settled (streamChat_events (Connect # es @ [Timeout]) streamChat_init)
         = Some (Resolved (concat (texts es)))
       \<and> closes (streamChat_events (Connect # es @ [Timeout]) streamChat_init) = 1"
proof -
  have st: "list_all stalls (Connect # es)" using assms by simp
  have "closes streamChat_init = 0" "settled streamChat_init = None"
    by (simp_all add: streamChat_init_def)
  with streamChat_stalled_pending[OF st, of streamChat_init]
  have p: "settled (streamChat_events (Connect # es) streamChat_init) = None"
    and c: "closes (streamChat_events (Connect # es) streamChat_init) = 0" by simp_all
  from streamChat_pending_timeout[OF p] c streamChat_connected[of es]
  show ?thesis by simp
qed

section \<open>Properties of pull mode\<close>

lemma gen_run_append:
  "gen_run (as @ bs) g
   = (case gen_run as g of (rs, g') \<Rightarrow> (case gen_run bs g' of (rs', g'') \<Rightarrow> (rs @ rs', g'')))"
proof (induction as arbitrary: g)
  case Nil
  show ?case by (simp split: prod.splits)
next
  case (Cons a as)
  show ?case
  proof (cases a)
    case (Ev e)
    then show ?thesis by (simp add: Cons.IH split: sum.splits)
  next
    case Next
    then show ?thesis by (simp add: Cons.IH split: prod.splits)
  qed
qed

text \<open>
  Exhausting the sequence once the stream is over: the queued fragments are yielded
  in order, then the generator throws the error it holds, or returns if it holds
  none.
\<close>

lemma gen_drain:
  "\<not> g_finished g \<Longrightarrow> g_done g \<Longrightarrow> chunkQueue g = q
   \<Longrightarrow> gen_run (replicate (Suc (length q)) Next) g
       = (map Yield q @ [case g_error g of None \<Rightarrow> Returned | Some e \<Rightarrow> Threw e],
          g\<lparr>chunkQueue := [], g_finished := True\<rparr>)"
proof (induction q arbitrary: g)
  case Nil
  then show ?case by (simp add: gen_next_def split: option.splits)
next
  case (Cons x q)
  let ?g1 = "g\<lparr>chunkQueue := q\<rparr>"
  have n: "gen_next g = (Yield x, ?g1)" using Cons.prems by (simp add: gen_next_def)
  have "\<not> g_finished ?g1" "g_done ?g1" "chunkQueue ?g1 = q" using Cons.prems by simp_all
  from Cons.IH[OF this] n show ?case by simp
qed

lemma gen_next_keeps:
  "gen_next g = (r, g')
   \<Longrightarrow> g_done g' = g_done g \<and> g_error g' = g_error g \<and> g_uncaught g' = g_uncaught g"
  by (auto simp: gen_next_def split: list.splits if_splits option.splits)

lemma grpc_error_stored:
  "status \<noteq> Some ''0''
   \<Longrightarrow> stored_error (Trailers status message)
       = (case grpc_error status message of Inl e \<Rightarrow> None | Inr err \<Rightarrow> Some err)"
  by (auto simp: grpc_error_def message_text_def status_text_def
        split: option.splits sum.splits)

lemma streamChatGenerator_on_error:
  "streamChatGenerator_on e g = Inr g'
   \<Longrightarrow> g_error g' = (case stored_error e of None \<Rightarrow> g_error g | Some err \<Rightarrow> Some err)"
proof (cases e)
  case (Trailers status message)
  assume "streamChatGenerator_on e g = Inr g'"
  with Trailers show ?thesis
  proof (cases "status = Some ''0''")
    case True
    with Trailers \<open>streamChatGenerator_on e g = Inr g'\<close> show ?thesis by auto
  next
    case False
    with Trailers \<open>streamChatGenerator_on e g = Inr g'\<close> grpc_error_stored[OF False, of message]
    show ?thesis by (auto simp del: stored_error.simps split: sum.splits)
  qed
qed (auto simp: Let_def split: if_splits)

lemma streamChatGenerator_on_throws:
  "streamChatGenerator_on e g = Inl err \<Longrightarrow> stored_error e = None"
proof (cases e)
  case (Trailers status message)
  assume "streamChatGenerator_on e g = Inl err"
  with Trailers show ?thesis
  proof (cases "status = Some ''0''")
    case True
    with Trailers \<open>streamChatGenerator_on e g = Inl err\<close> show ?thesis by auto
  next
    case False
    with Trailers \<open>streamChatGenerator_on e g = Inl err\<close> grpc_error_stored[OF False, of message]
    show ?thesis by (auto simp del: stored_error.simps split: sum.splits)
  qed
qed (auto simp: Let_def split: if_splits)

text \<open>
  In any run, the error the generator holds is the one of the last event that stands
  for an error; a trailer whose message does not decode stands for none.
\<close>

lemma gen_run_error:
  "gen_run acts g0 = (rs, g) \<Longrightarrow> g_error g = last_error (g_error g0) (events_of acts)"
proof (induction acts arbitrary: g0 rs)
  case Nil
  then show ?case by simp
next
  case (Cons a acts)
  show ?case
  proof (cases a)
    case (Ev e)
    show ?thesis
    proof (cases "streamChatGenerator_on e g0")
      case (Inl err)
      with Cons.prems Ev
      have "gen_run acts (g0\<lparr>g_uncaught := g_uncaught g0 @ [err]\<rparr>) = (rs, g)" by simp
      from Cons.IH[OF this] streamChatGenerator_on_throws[OF Inl] Ev
      show ?thesis by simp
    next
      case (Inr g1)
      with Cons.prems Ev have "gen_run acts g1 = (rs, g)" by simp
      from Cons.IH[OF this] streamChatGenerator_on_error[OF Inr] Ev
      show ?thesis by simp
    qed
  next
    case Next
    obtain r g1 where n: "gen_next g0 = (r, g1)" by (cases "gen_next g0")
    obtain rs' where g1: "gen_run acts g1 = (rs', g)"
      using Cons.prems Next n by (auto split: prod.splits)
    from Cons.IH[OF g1] gen_next_keeps[OF n] Next
    show ?thesis by simp
  qed
qed

lemma generator_exhaustion:
  assumes "gen_run acts streamChatGenerator_init = (rs, g)"
    and "g_done g" and "chunkQueue g = []" and "\<not> g_finished g"
  shows "fst (gen_next g)
         = (case last_error None (events_of acts) of None \<Rightarrow> Returned | Some e \<Rightarrow> Threw e)"
proof -
  have "g_error g = last_error None (events_of acts)"
    using gen_run_error[OF assms(1)] by (simp add: streamChatGenerator_init_def)
  then show ?thesis
    using assms(2-4) by (simp add: gen_next_def split: option.splits)
qed

text \<open>
  How the iteration ends after each of the events that end the stream, following
  any run that has not finished: the queued fragments are yielded; then a connection
  failure or a request error is thrown as a \<open>WindsurfError\<close>, and after \<open>'end'\<close> the
  error held is thrown, or the generator returns when none is held.
\<close>

lemma gen_run_then_drain:
  assumes "gen_run acts g0 = (rs, g)" and "gen_run [Ev e] g = ([], g1)"
    and "\<not> g_finished g1" and "g_done g1"
  shows "fst (gen_run (acts @ [Ev e] @ replicate (Suc (length (chunkQueue g1))) Next) g0)
         = rs @ map Yield (chunkQueue g1)
           @ [case g_error g1 of None \<Rightarrow> Returned | Some err \<Rightarrow> Threw err]"
proof -
  from gen_drain[OF assms(3,4) refl]
  have drain: "gen_run (replicate (Suc (length (chunkQueue g1))) Next) g1
        = (map Yield (chunkQueue g1)
             @ [case g_error g1 of None \<Rightarrow> Returned | Some err \<Rightarrow> Threw err],
           g1\<lparr>chunkQueue := [], g_finished := True\<rparr>)" .
  have "gen_run (acts @ [Ev e] @ replicate (Suc (length (chunkQueue g1))) Next) g0
        = (rs @ map Yield (chunkQueue g1)
             @ [case g_error g1 of None \<Rightarrow> Returned | Some err \<Rightarrow> Threw err],
           g1\<lparr>chunkQueue := [], g_finished := True\<rparr>)"
    unfolding gen_run_append[of acts] gen_run_append[of "[Ev e]"]
    by (simp only: assms(1,2) drain prod.case append_Nil)
  then show ?thesis by simp
qed

lemma generator_ends:
  assumes "gen_run acts streamChatGenerator_init = (rs, g)" and "\<not> g_finished g"
  shows "fst (gen_run (acts @ [Ev (ClientError m)]
                 @ replicate (Suc (length (chunkQueue g))) Next) streamChatGenerator_init)
           = rs @ map Yield (chunkQueue g)
             @ [Threw (WindsurfError (''Connection failed: '' @ m) CONNECTION_FAILED)]"
    and "fst (gen_run (acts @ [Ev (RequestError m)]
                 @ replicate (Suc (length (chunkQueue g))) Next) streamChatGenerator_init)
           = rs @ map Yield (chunkQueue g)
             @ [Threw (WindsurfError (''Request failed: '' @ m) STREAM_ERROR)]"
    and "fst (gen_run (acts @ [Ev End]
                 @ replicate (Suc (length (chunkQueue g))) Next) streamChatGenerator_init)
           = rs @ map Yield (chunkQueue g)
             @ [case last_error None (events_of acts) of
                  None \<Rightarrow> Returned | Some err \<Rightarrow> Threw err]"
proof -
  let ?c = "g\<lparr>g_error := Some (WindsurfError (''Connection failed: '' @ m) CONNECTION_FAILED),
              g_done := True\<rparr>"
  have "gen_run [Ev (ClientError m)] g = ([], ?c)" by simp
  from gen_run_then_drain[OF assms(1) this] assms(2)
  show "fst (gen_run (acts @ [Ev (ClientError m)]
                 @ replicate (Suc (length (chunkQueue g))) Next) streamChatGenerator_init)
           = rs @ map Yield (chunkQueue g)
             @ [Threw (WindsurfError (''Connection failed: '' @ m) CONNECTION_FAILED)]"
    by simp
  let ?r = "g\<lparr>g_error := Some (WindsurfError (''Request failed: '' @ m) STREAM_ERROR),
              g_done := True, g_closes := g_closes g + 1\<rparr>"
  have "gen_run [Ev (RequestError m)] g = ([], ?r)" by simp
  from gen_run_then_drain[OF assms(1) this] assms(2)
  show "fst (gen_run (acts @ [Ev (RequestError m)]
                 @ replicate (Suc (length (chunkQueue g))) Next) streamChatGenerator_init)
           = rs @ map Yield (chunkQueue g)
             @ [Threw (WindsurfError (''Request failed: '' @ m) STREAM_ERROR)]"
    by simp
  let ?e = "g\<lparr>g_done := True, g_closes := g_closes g + 1\<rparr>"
  have "gen_run [Ev End] g = ([], ?e)" by simp
  moreover have "g_error g = last_error None (events_of acts)"
    using gen_run_error[OF assms(1)] by (simp add: streamChatGenerator_init_def)
  ultimately show "fst (gen_run (acts @ [Ev End]
                 @ replicate (Suc (length (chunkQueue g))) Next) streamChatGenerator_init)
           = rs @ map Yield (chunkQueue g)
             @ [case last_error None (events_of acts) of
                  None \<Rightarrow> Returned | Some err \<Rightarrow> Threw err]"
    using gen_run_then_drain[OF assms(1), of End ?e] assms(2) by simp
qed

section \<open>The timer, the trailer and the end of the iteration\<close>

text \<open>
  C2, in pull mode. The transport delivers the chunk "Hel" and then nothing: no
  trailer, no end. The generator yields "Hel" and awaits; two minutes later it still
  awaits, \<open>client.close()\<close> was never called and the iteration has not ended, since
  \<open>streamChatGenerator\<close> sets no timer. At the same events \<open>streamChat\<close>, which sets
  one, has closed the connection and resolved the promise with "Hel".
\<close>

theorem pull_mode_sets_no_timer:
  "gen_run [Ev (Data (ascii ''Hel'')), Next, Next, Ev Timeout, Next] streamChatGenerator_init
   = ([Yield ''Hel'', Suspended, Suspended],
      \<lparr>g_closes = 0, chunkQueue = [], g_done = False, g_error = None, g_uncaught = [],
       g_finished = False\<rparr>)
   \<and> streamChat_events [Connect, Data (ascii ''Hel''), Timeout] streamChat_init
     = \<lparr>requested = True, requests = 1, closes = 1, chunks = [''Hel''],
        onChunk_calls = [''Hel''], onComplete_calls = [''Hel''], onError_calls = [],
        settled = Some (Resolved ''Hel''), uncaught = []\<rparr>"
  by (simp add: streamChatGenerator_init_def streamChat_init_def extract_samples Let_def
        gen_next_def settle_def)

text \<open>
  C4, as the code has it. Push mode: after the connection and any events that leave
  the promise pending, a trailer whose status is not \<open>'0'\<close> and whose message is
  absent, empty or decodes rejects the promise with the \<open>STREAM_ERROR\<close> whose message
  is "gRPC error ", the status, ": " and the decoded message ("Unknown error" without
  one); \<open>onError\<close> is called with it; and \<open>onChunk\<close> has received the decoded texts
  of the chunks delivered before. Pull mode: when such a trailer and then the end of
  the stream follow any run that has not finished, exhausting the sequence yields the
  queued fragments and then throws that error.
\<close>

theorem nonzero_trailer_rejects:
  assumes "settled (streamChat_events (Connect # es) streamChat_init) = None"
    and "status \<noteq> Some ''0''"
    and "case message of None \<Rightarrow> True | Some msg \<Rightarrow> msg = [] \<or> decodeURIComponent msg = Inr d"
    and "body = (case message of
                   None \<Rightarrow> ''Unknown error''
                 | Some msg \<Rightarrow> if msg = [] then ''Unknown error'' else d)"
    and "err = WindsurfError
           (''gRPC error '' @ (case status of None \<Rightarrow> ''undefined'' | Some st \<Rightarrow> st)
            @ '': '' @ body) STREAM_ERROR"
    and "gen_run acts streamChatGenerator_init = (rs, g)" and "\<not> g_finished g"
  shows "settled (streamChat_events (Connect # es @ [Trailers status message]) streamChat_init)
           = Some (Rejected err)
         \<and> onError_calls
             (streamChat_events (Connect # es @ [Trailers status message]) streamChat_init)
           = onError_calls (streamChat_events (Connect # es) streamChat_init) @ [err]
         \<and> onChunk_calls
             (streamChat_events (Connect # es @ [Trailers status message]) streamChat_init)
           = texts es
         \<and> fst (gen_run (acts @ [Ev (Trailers status message), Ev End]
                     @ replicate (Suc (length (chunkQueue g))) Next) streamChatGenerator_init)
           = rs @ map Yield (chunkQueue g) @ [Threw err]"
proof -
  have ge: "grpc_error status message = Inr err"
    using assms(3,4,5)
    by (auto simp: grpc_error_def message_text_def status_text_def split: option.splits)
  let ?s = "streamChat_events (Connect # es) streamChat_init"
  have c: "requested ?s" "onChunk_calls ?s = texts es"
    using streamChat_connected[of es] by simp_all
  have "streamChat_events (Connect # es @ [Trailers status message]) streamChat_init
        = streamChat_events [Trailers status message] ?s"
    using streamChat_events_append[of "Connect # es" "[Trailers status message]" streamChat_init]
    by simp
  also have "\<dots> = (?s\<lparr>onError_calls := onError_calls ?s @ [err]\<rparr>)\<lparr>settled := Some (Rejected err)\<rparr>"
    using c(1) assms(1,2) ge by (simp add: settle_def)
  finally have push: "streamChat_events (Connect # es @ [Trailers status message]) streamChat_init
        = (?s\<lparr>onError_calls := onError_calls ?s @ [err]\<rparr>)\<lparr>settled := Some (Rejected err)\<rparr>" .
  let ?g2 = "g\<lparr>g_error := Some err, g_done := True, g_closes := g_closes g + 1\<rparr>"
  have two: "gen_run [Ev (Trailers status message), Ev End] g = ([], ?g2)"
    using assms(2) ge by simp
  have "\<not> g_finished ?g2" "g_done ?g2" "chunkQueue ?g2 = chunkQueue g"
    using assms(7) by simp_all
  from gen_drain[OF this]
  have drain: "gen_run (replicate (Suc (length (chunkQueue g))) Next) ?g2
        = (map Yield (chunkQueue g) @ [Threw err], ?g2\<lparr>chunkQueue := [], g_finished := True\<rparr>)"
    by simp
  have "gen_run (acts @ [Ev (Trailers status message), Ev End]
          @ replicate (Suc (length (chunkQueue g))) Next) streamChatGenerator_init
        = (rs @ map Yield (chunkQueue g) @ [Threw err],
           ?g2\<lparr>chunkQueue := [], g_finished := True\<rparr>)"
    unfolding gen_run_append[of acts] gen_run_append[of "[Ev (Trailers status message), Ev End]"]
    by (simp only: assms(6) two drain prod.case append_Nil)
  then have pull: "fst (gen_run (acts @ [Ev (Trailers status message), Ev End]
          @ replicate (Suc (length (chunkQueue g))) Next) streamChatGenerator_init)
        = rs @ map Yield (chunkQueue g) @ [Threw err]"
    by simp
  show ?thesis
    unfolding push using c(2) pull by simp
qed

theorem nonzero_trailer_rejects_witness:
  "settled (streamChat_events [Connect, Data (ascii ''Hel'')] streamChat_init) = None
   \<and> Some ''13'' \<noteq> Some ''0''
   \<and> decodeURIComponent ''boom'' = Inr ''boom''
   \<and> gen_run [Ev (Data (ascii ''Hel''))] streamChatGenerator_init
     = ([], \<lparr>g_closes = 0, chunkQueue = [''Hel''], g_done = False, g_error = None,
             g_uncaught = [], g_finished = False\<rparr>)
   \<and> settled (streamChat_events
        [Connect, Data (ascii ''Hel''), Trailers (Some ''13'') (Some ''boom'')]
        streamChat_init)
     = Some (Rejected (WindsurfError ''gRPC error 13: boom'' STREAM_ERROR))
   \<and> onError_calls (streamChat_events
        [Connect, Data (ascii ''Hel''), Trailers (Some ''13'') (Some ''boom'')]
        streamChat_init)
     = [WindsurfError ''gRPC error 13: boom'' STREAM_ERROR]
   \<and> onChunk_calls (streamChat_events
        [Connect, Data (ascii ''Hel''), Trailers (Some ''13'') (Some ''boom'')]
        streamChat_init)
     = [''Hel'']
   \<and> fst (gen_run [Ev (Data (ascii ''Hel'')), Ev (Trailers (Some ''13'') (Some ''boom'')),
                   Ev End, Next, Next] streamChatGenerator_init)
     = [Yield ''Hel'', Threw (WindsurfError ''gRPC error 13: boom'' STREAM_ERROR)]"
proof -
  let ?g = "\<lparr>g_closes = 0, chunkQueue = [''Hel''], g_done = False, g_error = None,
             g_uncaught = [], g_finished = False\<rparr>"
  have a: "settled (streamChat_events (Connect # [Data (ascii ''Hel'')]) streamChat_init) = None"
    by (simp add: streamChat_init_def extract_samples Let_def)
  have b: "Some ''13'' \<noteq> Some ''0''" by simp
  have d: "decodeURIComponent ''boom'' = Inr ''boom''" by (rule decode_samples)
  have c: "case Some ''boom'' of None \<Rightarrow> True
           | Some msg \<Rightarrow> msg = [] \<or> decodeURIComponent msg = Inr ''boom''"
    using d by simp
  have e: "''boom'' = (case Some ''boom'' of None \<Rightarrow> ''Unknown error''
                       | Some msg \<Rightarrow> if msg = [] then ''Unknown error'' else ''boom'')"
    by simp
  have f: "WindsurfError ''gRPC error 13: boom'' STREAM_ERROR
           = WindsurfError (''gRPC error ''
               @ (case Some ''13'' of None \<Rightarrow> ''undefined'' | Some st \<Rightarrow> st)
               @ '': '' @ ''boom'') STREAM_ERROR"
    by simp
  have g: "gen_run [Ev (Data (ascii ''Hel''))] streamChatGenerator_init = ([], ?g)"
    by (simp add: streamChatGenerator_init_def extract_samples Let_def)
  have h: "\<not> g_finished ?g" by simp
  have i: "onError_calls (streamChat_events (Connect # [Data (ascii ''Hel'')]) streamChat_init)
           = []"
    by (simp add: streamChat_init_def extract_samples Let_def)
  have j: "replicate (Suc (length (chunkQueue ?g))) Next = [Next, Next]"
    by simp
  have k: "texts [Data (ascii ''Hel'')] = [''Hel'']"
    by (simp add: extract_samples)
  have l: "map Yield (chunkQueue ?g) = [Yield ''Hel'']"
    by simp
  note t = nonzero_trailer_rejects[OF a b c e f g h]
  from t a b d g show ?thesis
    by (simp only: i j k l append_Cons append_Nil) simp
qed

text \<open>
  C4 as stated fails: a trailer with status 13 that arrives after the timer has
  fired finds the promise resolved with the text collected before, and the call does
  not fail.
\<close>

theorem nonzero_trailer_counterexample:
  "settled (streamChat_events
        [Connect, Data (ascii ''Hel''), Timeout, Trailers (Some ''13'') (Some ''boom'')]
        streamChat_init)
   = Some (Resolved ''Hel'')"
  by (simp add: streamChat_init_def extract_samples Let_def settle_def grpc_error_def
        message_text_def decode_samples)

text \<open>
  C9, at a trailer whose message is not well-formed percent-encoding. The transport
  delivers the chunk "Hel", the trailer with status 13 and message "100%", and the
  end. \<open>decodeURIComponent\<close> throws inside the trailer listener before \<open>error\<close> is
  assigned; the generator yields "Hel" and then returns, though the status was not 0.
  With the message "boom" the same run ends with the error thrown.
\<close>

theorem generator_malformed_trailer_ends_cleanly:
  "gen_run [Ev (Data (ascii ''Hel'')), Ev (Trailers (Some ''13'') (Some ''100%'')), Ev End,
            Next, Next] streamChatGenerator_init
   = ([Yield ''Hel'', Returned],
      \<lparr>g_closes = 1, chunkQueue = [], g_done = True, g_error = None,
       g_uncaught = [URIError], g_finished = True\<rparr>)
   \<and> gen_run [Ev (Data (ascii ''Hel'')), Ev (Trailers (Some ''13'') (Some ''boom'')), Ev End,
            Next, Next] streamChatGenerator_init
     = ([Yield ''Hel'', Threw (WindsurfError ''gRPC error 13: boom'' STREAM_ERROR)],
        \<lparr>g_closes = 1, chunkQueue = [], g_done = True,
         g_error = Some (WindsurfError ''gRPC error 13: boom'' STREAM_ERROR),
         g_uncaught = [], g_finished = True\<rparr>)"
  by (simp add: streamChatGenerator_init_def extract_samples Let_def gen_next_def
        grpc_error_def message_text_def status_text_def decode_samples)

text \<open>
  The same message in push mode: the trailer listener throws, the promise stays
  pending, and the end of the stream resolves it.
\<close>

lemma malformed_trailer_message:
  "streamChat_events [Connect, Trailers (Some ''13'') (Some ''100%''), End] streamChat_init
   = \<lparr>requested = True, requests = 1, closes = 1, chunks = [], onChunk_calls = [],
      onComplete_calls = [[]], onError_calls = [], settled = Some (Resolved []),
      uncaught = [URIError]\<rparr>"
  by (simp add: streamChat_init_def Let_def settle_def grpc_error_def message_text_def
        decode_samples)

text \<open>
  A \<open>'connect'\<close> that comes after the timer: \<open>client.request\<close> throws and no request
  is made.
\<close>

lemma connect_after_timeout:
  "streamChat_events [Timeout, Connect, Data (ascii ''Hel'')] streamChat_init
   = \<lparr>requested = False, requests = 0, closes = 1, chunks = [], onChunk_calls = [],
      onComplete_calls = [[]], onError_calls = [], settled = Some (Resolved []),
      uncaught = [Error ''New streams cannot be created after receiving a GOAWAY'']\<rparr>"
  by (simp add: streamChat_init_def Let_def settle_def)

end
